theory Spec2Isabelle
  imports Main "HOL-Library.Multiset"
begin

section \<open>JavaScript values, the heap and errors\<close>

text \<open>
  The library walks a graph of JavaScript values in which objects and arrays have an
  identity. A value is either a primitive, a symbol, a function or a pointer to a heap
  cell. Numbers are carried around by the library and never computed with, so they are
  integers here. A symbol is its description together with a flag telling whether it is
  registered in the global symbol registry; a function is its name.

  The heap is a list of cells, an address is an index into it, and allocation appends.
  A cell is an array, an object with the name of the class that its prototype belongs to
  (\<open>Object\<close> for an object literal, \<open>None\<close> when the prototype gives no constructor)
  and its own enumerable properties in enumeration order, a \<open>Map\<close>, a \<open>Set\<close>, or a
  boxed primitive (\<open>Date\<close>, \<open>Number\<close>, \<open>String\<close>, \<open>Boolean\<close>) with the name of its
  class. The own properties of an object may have any name, also \<open>constructor\<close>,
  \<open>__proto__\<close> or \<open>hasOwnProperty\<close>: what the code does with them is modelled.

  Not modelled: numbers that are not integers, the members that a class other than
  \<open>Object\<close> defines on its prototype, accessors, holes in arrays, named properties on
  arrays, maps, sets and boxed primitives, properties of primitives and of functions.
  Where the code would depend on one of these the model returns the error
  \<open>Unmodelled\<close>.
\<close>

type_synonym addr = nat

datatype jsval =
    VUndefined
  | VNull
  | VBool bool
  | VNum int
  | VStr string
  | VSymbol string bool
  | VFunction string
  | VObject addr

datatype hobj =
    HArray "jsval list"
  | HObject "string option" "(string \<times> jsval) list"
  | HMap "(jsval \<times> jsval) list"
  | HSet "jsval list"
  | HBoxed string jsval

type_synonym heap = "hobj list"

datatype error =
    ReferenceFound    \<comment> \<open>\<open>Error('Deserted: reference found while noRefs=true')\<close>\<close>
  | NoConstructor     \<comment> \<open>\<open>Error('no constructor')\<close>\<close>
  | UnregisteredClass \<comment> \<open>\<open>Error('unregistered class')\<close>\<close>
  | NoConverter       \<comment> \<open>\<open>Error('no converter')\<close>\<close>
  | UnknownItem       \<comment> \<open>\<open>Error('unknown item')\<close>\<close>
  | TypeError         \<comment> \<open>thrown by the language: property access on null or undefined\<close>
  | Unmodelled        \<comment> \<open>the code leaves the fragment of JavaScript modelled here\<close>

definition alloc :: "hobj \<Rightarrow> heap \<Rightarrow> jsval \<times> heap" where
  "alloc ob h = (VObject (length h), h @ [ob])"

definition cell :: "heap \<Rightarrow> addr \<Rightarrow> hobj option" where
  "cell h a = (if a < length h then Some (h ! a) else None)"

section \<open>private/util: Arr, Path, Action\<close>

definition Arr_init :: "'a list \<Rightarrow> 'a list" where
  "Arr_init arr = butlast arr"

text \<open>\<open>Arr.last\<close> of an empty array is \<open>undefined\<close>: the result is optional.\<close>

definition Arr_last :: "'a list \<Rightarrow> 'a option" where
  "Arr_last arr = (if arr = [] then None else Some (last arr))"

definition Arr_tail :: "'a list \<Rightarrow> 'a list" where
  "Arr_tail arr = tl arr"

definition Arr_first :: "'a list \<Rightarrow> 'a option" where
  "Arr_first arr = (case arr of [] \<Rightarrow> None | x # _ \<Rightarrow> Some x)"

type_synonym Path = "string list"

datatype SerItem =
    Val jsval
  | Ref Path
  | Obj "(string \<times> SerItem) list"
  | Fun SerItem
  | Sym jsval
  | Arr "SerItem list"
  | Proto string SerItem
  | Unknown            \<comment> \<open>an object that matches none of the shapes\<close>
  | NonObject          \<comment> \<open>a primitive where an item is expected\<close>

text \<open>\<open>String(index)\<close>: the decimal numeral of an array index.\<close>

definition digit :: "nat \<Rightarrow> char" where
  "digit d = ''0123456789'' ! d"

function String_index :: "nat \<Rightarrow> string" where
  "String_index n =
     (if n < 10 then [digit n] else String_index (n div 10) @ [digit (n mod 10)])"
  by pat_completeness auto
termination
  by (relation "measure (\<lambda>n. n)") auto

declare String_index.simps [simp del]

text \<open>The index that a property name denotes on an array of the given length.\<close>

definition array_index :: "string \<Rightarrow> nat \<Rightarrow> nat option" where
  "array_index p len = List.find (\<lambda>i. String_index i = p) [0..<len]"

text \<open>
  The names of the members of \<open>Object.prototype\<close>: every object that has this prototype
  in its chain reads them when it has no own property of the name.
\<close>

definition Object_prototype :: "string list" where
  "Object_prototype =
     [''constructor'', ''__defineGetter__'', ''__defineSetter__'', ''hasOwnProperty'',
      ''__lookupGetter__'', ''__lookupSetter__'', ''isPrototypeOf'',
      ''propertyIsEnumerable'', ''toString'', ''valueOf'', ''__proto__'',
      ''toLocaleString'']"

text \<open>A name of decimal digits only: no prototype of the language has such a member.\<close>

definition numeric :: "string \<Rightarrow> bool" where
  "numeric p \<longleftrightarrow> p \<noteq> [] \<and> list_all (\<lambda>c. c \<in> set ''0123456789'') p"

text \<open>
  \<open>o[p]\<close>. Reading a property of \<open>null\<close> or \<open>undefined\<close> throws. An own property
  is read first. A name that is not an own property reads as \<open>undefined\<close> when no
  prototype can hold it: a numeric name, or on an object of the class \<open>Object\<close> a name
  that is not a member of \<open>Object.prototype\<close>. The other reads (an inherited member,
  the length of an array, a property of a primitive or of a function) are not modelled.
\<close>

definition get_prop :: "jsval \<Rightarrow> string \<Rightarrow> heap \<Rightarrow> error + jsval" where
  "get_prop v p h =
     (case v of
        VUndefined \<Rightarrow> Inl TypeError
      | VNull \<Rightarrow> Inl TypeError
      | VObject a \<Rightarrow>
          (case cell h a of
             None \<Rightarrow> Inl Unmodelled
           | Some (HArray xs) \<Rightarrow>
               (case array_index p (length xs) of
                  Some i \<Rightarrow> Inr (xs ! i)
                | None \<Rightarrow> if numeric p then Inr VUndefined else Inl Unmodelled)
           | Some (HObject c props) \<Rightarrow>
               (case map_of props p of
                  Some x \<Rightarrow> Inr x
                | None \<Rightarrow>
                    if numeric p \<or> (c = Some ''Object'' \<and> p \<notin> set Object_prototype)
                    then Inr VUndefined else Inl Unmodelled)
           | Some (HMap es) \<Rightarrow> if numeric p then Inr VUndefined else Inl Unmodelled
           | Some (HSet xs) \<Rightarrow> if numeric p then Inr VUndefined else Inl Unmodelled
           | Some (HBoxed c x) \<Rightarrow> Inl Unmodelled)
      | _ \<Rightarrow> Inl Unmodelled)"

text \<open>\<open>props[p] = x\<close> on the own properties of an object: replace, or append.\<close>

fun assign :: "(string \<times> jsval) list \<Rightarrow> string \<Rightarrow> jsval \<Rightarrow> (string \<times> jsval) list" where
  "assign [] p x = [(p, x)]"
| "assign ((k, y) # props) p x =
     (if k = p then (k, x) # props else (k, y) # assign props p x)"

text \<open>
  \<open>o[p] = x\<close> in strict mode. Writing to \<open>null\<close>, \<open>undefined\<close> or a primitive
  throws. On an object the assignment makes or updates an own property, except for the
  name \<open>__proto__\<close>, which goes through the setter of \<open>Object.prototype\<close> (not
  modelled here; the two places where the library assigns under a key of the data,
  \<open>obj[key] = ...\<close> in \<open>ser\<close> and \<open>result[key] = ...\<close> in \<open>des\<close>, treat the name
  themselves).
\<close>

definition set_prop :: "jsval \<Rightarrow> string \<Rightarrow> jsval \<Rightarrow> heap \<Rightarrow> error + heap" where
  "set_prop v p x h =
     (case v of
        VObject a \<Rightarrow>
          (case cell h a of
             None \<Rightarrow> Inl Unmodelled
           | Some (HArray xs) \<Rightarrow>
               (case array_index p (length xs) of
                  Some i \<Rightarrow> Inr (h[a := HArray (xs[i := x])])
                | None \<Rightarrow> Inl Unmodelled)
           | Some (HObject c props) \<Rightarrow>
               if p = ''__proto__'' then Inl Unmodelled
               else Inr (h[a := HObject c (assign props p x)])
           | Some _ \<Rightarrow> Inl Unmodelled)
      | VFunction f \<Rightarrow> Inl Unmodelled
      | _ \<Rightarrow> Inl TypeError)"

text \<open>\<open>Path.find\<close>: the loop stops with \<open>undefined\<close> once it holds \<open>undefined\<close>.\<close>

fun Path_find :: "jsval \<Rightarrow> Path \<Rightarrow> heap \<Rightarrow> error + jsval" where
  "Path_find root [] h = Inr root"
| "Path_find root (p # path) h =
     (if root = VUndefined then Inr VUndefined
      else (case get_prop root p h of
              Inl e \<Rightarrow> Inl e
            | Inr result \<Rightarrow> Path_find result path h))"

text \<open>
  \<open>Path.copyProperty\<close>. With an empty target path the property name is
  \<open>undefined\<close>, which the model does not follow.
\<close>

definition Path_copyProperty :: "jsval \<Rightarrow> Path \<Rightarrow> Path \<Rightarrow> heap \<Rightarrow> error + heap" where
  "Path_copyProperty root sourcePath targetPath h =
     (case Path_find root sourcePath h of
        Inl e \<Rightarrow> Inl e
      | Inr sourceItem \<Rightarrow>
          (case Path_find root (Arr_init targetPath) h of
             Inl e \<Rightarrow> Inl e
           | Inr targetItem \<Rightarrow>
               (case Arr_last targetPath of
                  None \<Rightarrow>
                    (case targetItem of VObject a \<Rightarrow> Inl Unmodelled | _ \<Rightarrow> Inl TypeError)
                | Some p \<Rightarrow> set_prop targetItem p sourceItem h)))"

datatype Action =
    CopyAction Path Path     \<comment> \<open>\<open>{ target, source }\<close>\<close>
  | ConvertAction string Path  \<comment> \<open>\<open>{ convertTo, path }\<close>\<close>

fun Action_depth :: "Action \<Rightarrow> nat" where
  "Action_depth (ConvertAction convertTo path) = length path"
| "Action_depth (CopyAction target source) = length source"

definition Action_compare :: "Action \<Rightarrow> Action \<Rightarrow> int" where
  "Action_compare a1 a2 = int (Action_depth a2) - int (Action_depth a1)"

text \<open>
  \<open>Array.prototype.sort\<close> with a comparator: a stable sort. The elements are inserted
  from the last to the first, each before the first element that the comparator does not
  put before it, so that elements that compare equal keep their order.
\<close>

fun insort_cmp :: "('a \<Rightarrow> 'a \<Rightarrow> int) \<Rightarrow> 'a \<Rightarrow> 'a list \<Rightarrow> 'a list" where
  "insort_cmp cmp a [] = [a]"
| "insort_cmp cmp a (b # bs) =
     (if cmp a b \<le> 0 then a # b # bs else b # insort_cmp cmp a bs)"

definition sort_cmp :: "('a \<Rightarrow> 'a \<Rightarrow> int) \<Rightarrow> 'a list \<Rightarrow> 'a list" where
  "sort_cmp cmp xs = foldr (insort_cmp cmp) xs []"

section \<open>converters\<close>

text \<open>
  A converter is a pair of JavaScript functions. They run on the heap, may allocate and
  may throw, so each is a function from a value and a heap to an error or a value and a
  heap.
\<close>

record Converter =
  conv_from :: "jsval \<Rightarrow> heap \<Rightarrow> error + jsval \<times> heap"
  conv_to :: "jsval \<Rightarrow> heap \<Rightarrow> error + jsval \<times> heap"

definition Converter_create ::
  "(jsval \<Rightarrow> heap \<Rightarrow> error + jsval \<times> heap) \<Rightarrow> (jsval \<Rightarrow> heap \<Rightarrow> error + jsval \<times> heap)
     \<Rightarrow> Converter" where
  "Converter_create f t = \<lparr>conv_from = f, conv_to = t\<rparr>"

text \<open>
  The string that a template literal or \<open>Symbol.for\<close> makes of a primitive. A number is
  a double: an integer below \<open>2\<^sup>5\<^sup>3\<close> in absolute value is held exactly and written
  in decimal digits; the other numbers (\<open>1e21\<close> is written \<open>1e+21\<close>) are not modelled.
\<close>

definition js_string :: "jsval \<Rightarrow> error + string" where
  "js_string v =
     (case v of
        VUndefined \<Rightarrow> Inr ''undefined''
      | VNull \<Rightarrow> Inr ''null''
      | VBool b \<Rightarrow> Inr (if b then ''true'' else ''false'')
      | VNum n \<Rightarrow>
          if \<bar>n\<bar> < 9007199254740992 then
            Inr (if n < 0 then CHR ''-'' # String_index (nat (- n)) else String_index (nat n))
          else Inl Unmodelled
      | VStr s \<Rightarrow> Inr s
      | VSymbol d g \<Rightarrow> Inl TypeError
      | _ \<Rightarrow> Inl Unmodelled)"

definition DefaultFunctionConverter :: Converter where
  "DefaultFunctionConverter = Converter_create
     (\<lambda>f h. case f of VFunction name \<Rightarrow> Inr (VStr name, h) | _ \<Rightarrow> Inl Unmodelled)
     (\<lambda>name h. case js_string name of
                  Inl e \<Rightarrow> Inl e
                | Inr s \<Rightarrow> Inr (VStr (''[function '' @ s @ '']''), h))"

text \<open>
  \<open>Symbol.keyFor\<close> gives the key of a registered symbol; otherwise the description is
  cut out of \<open>String(s)\<close>. Both are the symbol's description. \<open>Symbol.for\<close> gives the
  registered symbol of that key.
\<close>

definition DefaultSymbolConverter :: Converter where
  "DefaultSymbolConverter = Converter_create
     (\<lambda>s h. case s of VSymbol d g \<Rightarrow> Inr (VStr d, h) | _ \<Rightarrow> Inl Unmodelled)
     (\<lambda>key h. case js_string key of
                 Inl e \<Rightarrow> Inl e
               | Inr k \<Rightarrow> Inr (VSymbol k True, h))"

type_synonym ConverterConfig = "string \<rightharpoonup> Converter"

text \<open>\<open>Object.assign(target, source)\<close> on converter configurations.\<close>

definition Object_assign :: "ConverterConfig \<Rightarrow> ConverterConfig \<Rightarrow> ConverterConfig" where
  "Object_assign target source = target ++ source"

text \<open>A class: its name and what \<open>new\<close> does with the arguments.\<close>

record Constructor =
  ctor_name :: string
  ctor_new :: "jsval list \<Rightarrow> heap \<Rightarrow> error + jsval \<times> heap"

text \<open>The own enumerable properties of a value, as spread and \<open>Object.assign\<close> read them.\<close>

definition own_props :: "jsval \<Rightarrow> heap \<Rightarrow> error + (string \<times> jsval) list" where
  "own_props v h =
     (case v of
        VObject a \<Rightarrow>
          (case cell h a of
             None \<Rightarrow> Inl Unmodelled
           | Some (HArray xs) \<Rightarrow> Inr (zip (map String_index [0..<length xs]) xs)
           | Some (HObject c props) \<Rightarrow> Inr props
           | Some (HMap es) \<Rightarrow> Inr []
           | Some (HSet xs) \<Rightarrow> Inr []
           | Some (HBoxed c x) \<Rightarrow> Inl Unmodelled)
      | VStr s \<Rightarrow> Inl Unmodelled
      | _ \<Rightarrow> Inr [])"

text \<open>\<open>Object.assign(target, state)\<close> on the heap; it returns the target.\<close>

fun assign_all :: "jsval \<Rightarrow> (string \<times> jsval) list \<Rightarrow> heap \<Rightarrow> error + heap" where
  "assign_all target [] h = Inr h"
| "assign_all target ((k, x) # props) h =
     (case set_prop target k x h of
        Inl e \<Rightarrow> Inl e
      | Inr h' \<Rightarrow> assign_all target props h')"

definition Object_assign_heap :: "jsval \<Rightarrow> jsval \<Rightarrow> heap \<Rightarrow> error + jsval \<times> heap" where
  "Object_assign_heap target state h =
     (case own_props state h of
        Inl e \<Rightarrow> Inl e
      | Inr props \<Rightarrow>
          (case assign_all target props h of
             Inl e \<Rightarrow> Inl e
           | Inr h' \<Rightarrow> Inr (target, h')))"

text \<open>
  \<open>obj.valueOf()\<close>: the primitive of a boxed primitive; the object itself for an array,
  a map, a set and an object of the class \<open>Object\<close>, which inherit the method of
  \<open>Object.prototype\<close>. An own property of the name shadows the method. The method of
  another class is not modelled.
\<close>

definition valueOf_method :: "jsval \<Rightarrow> heap \<Rightarrow> error + jsval \<times> heap" where
  "valueOf_method obj h =
     (case obj of
        VUndefined \<Rightarrow> Inl TypeError
      | VNull \<Rightarrow> Inl TypeError
      | VObject a \<Rightarrow>
          (case cell h a of
             None \<Rightarrow> Inl Unmodelled
           | Some (HBoxed c x) \<Rightarrow> Inr (x, h)
           | Some (HObject c props) \<Rightarrow>
               (case map_of props ''valueOf'' of
                  Some (VFunction f) \<Rightarrow> Inl Unmodelled
                | Some x \<Rightarrow> Inl TypeError
                | None \<Rightarrow> if c = Some ''Object'' then Inr (obj, h) else Inl Unmodelled)
           | Some _ \<Rightarrow> Inr (obj, h))
      | _ \<Rightarrow> Inr (obj, h))"

definition Converters_valueOf :: "Constructor \<Rightarrow> ConverterConfig" where
  "Converters_valueOf constructor =
     [ctor_name constructor \<mapsto> Converter_create
        (\<lambda>obj h. valueOf_method obj h)
        (\<lambda>value h. ctor_new constructor [value] h)]"

text \<open>\<open>[...obj[Symbol.iterator]()]\<close>: a map yields a fresh pair for each entry.\<close>

fun alloc_pairs :: "(jsval \<times> jsval) list \<Rightarrow> heap \<Rightarrow> jsval list \<times> heap" where
  "alloc_pairs [] h = ([], h)"
| "alloc_pairs ((k, x) # es) h =
     (case alloc (HArray [k, x]) h of
        (pair, h') \<Rightarrow> (case alloc_pairs es h' of (pairs, h'') \<Rightarrow> (pair # pairs, h'')))"

definition spread_iterator :: "jsval \<Rightarrow> heap \<Rightarrow> error + jsval \<times> heap" where
  "spread_iterator obj h =
     (case obj of
        VObject a \<Rightarrow>
          (case cell h a of
             None \<Rightarrow> Inl Unmodelled
           | Some (HArray xs) \<Rightarrow> Inr (alloc (HArray xs) h)
           | Some (HSet xs) \<Rightarrow> Inr (alloc (HArray xs) h)
           | Some (HMap es) \<Rightarrow>
               (case alloc_pairs es h of (pairs, h') \<Rightarrow> Inr (alloc (HArray pairs) h'))
           | Some (HObject c props) \<Rightarrow> Inl TypeError
           | Some (HBoxed c x) \<Rightarrow> Inl Unmodelled)
      | VStr s \<Rightarrow> Inl Unmodelled
      | _ \<Rightarrow> Inl TypeError)"

definition Converters_fromIterable :: "Constructor \<Rightarrow> ConverterConfig" where
  "Converters_fromIterable constructor =
     [ctor_name constructor \<mapsto> Converter_create
        (\<lambda>obj h. spread_iterator obj h)
        (\<lambda>elems h. ctor_new constructor [elems] h)]"

definition spread_object :: "jsval \<Rightarrow> heap \<Rightarrow> error + jsval \<times> heap" where
  "spread_object obj h =
     (case own_props obj h of
        Inl e \<Rightarrow> Inl e
      | Inr props \<Rightarrow> Inr (alloc (HObject (Some ''Object'') props) h))"

definition assign_new :: "Constructor \<Rightarrow> jsval \<Rightarrow> heap \<Rightarrow> error + jsval \<times> heap" where
  "assign_new constructor state h =
     (case ctor_new constructor [] h of
        Inl e \<Rightarrow> Inl e
      | Inr (target, h') \<Rightarrow> Object_assign_heap target state h')"

definition Converters_allProps :: "Constructor \<Rightarrow> ConverterConfig" where
  "Converters_allProps constructor =
     [ctor_name constructor \<mapsto> Converter_create
        (\<lambda>obj h. spread_object obj h)
        (\<lambda>state h. assign_new constructor state h)]"

text \<open>\<open>for (const prop of props) result[prop] = obj[prop]\<close>\<close>

fun pick_props :: "jsval \<Rightarrow> string list \<Rightarrow> (string \<times> jsval) list \<Rightarrow> heap
    \<Rightarrow> error + (string \<times> jsval) list" where
  "pick_props obj [] result h = Inr result"
| "pick_props obj (prop # props) result h =
     (case get_prop obj prop h of
        Inl e \<Rightarrow> Inl e
      | Inr x \<Rightarrow>
          if prop = ''__proto__'' then Inl Unmodelled
          else pick_props obj props (assign result prop x) h)"

definition Converters_pick :: "Constructor \<Rightarrow> string list \<Rightarrow> ConverterConfig" where
  "Converters_pick constructor props =
     [ctor_name constructor \<mapsto> Converter_create
        (\<lambda>obj h. case pick_props obj props [] h of
                    Inl e \<Rightarrow> Inl e
                  | Inr result \<Rightarrow> Inr (alloc (HObject (Some ''Object'') result) h))
        (\<lambda>obj h. assign_new constructor obj h)]"

definition Converters_all ::
  "(Constructor \<Rightarrow> ConverterConfig) \<Rightarrow> Constructor list \<Rightarrow> ConverterConfig" where
  "Converters_all toConverter constructors =
     fold (\<lambda>item result. Object_assign result (toConverter item)) constructors Map.empty"

text \<open>
  Classes for the examples: a user class whose constructor takes no argument and sets
  the given fields, and the built-in \<open>Map\<close>, whose constructor reads an array of
  entries.
\<close>

definition user_class :: "string \<Rightarrow> (string \<times> jsval) list \<Rightarrow> Constructor" where
  "user_class name init =
     \<lparr>ctor_name = name, ctor_new = (\<lambda>args h. Inr (alloc (HObject (Some name) init) h))\<rparr>"

fun map_set :: "(jsval \<times> jsval) list \<Rightarrow> jsval \<Rightarrow> jsval \<Rightarrow> (jsval \<times> jsval) list" where
  "map_set [] k x = [(k, x)]"
| "map_set ((k', y) # es) k x = (if k' = k then (k', x) # es else (k', y) # map_set es k x)"

fun map_entries :: "jsval list \<Rightarrow> (jsval \<times> jsval) list \<Rightarrow> heap
    \<Rightarrow> error + (jsval \<times> jsval) list" where
  "map_entries [] es h = Inr es"
| "map_entries (entry # entries) es h =
     (case entry of
        VObject a \<Rightarrow>
          (case get_prop entry ''0'' h of
             Inl e \<Rightarrow> Inl e
           | Inr k \<Rightarrow>
               (case get_prop entry ''1'' h of
                  Inl e \<Rightarrow> Inl e
                | Inr x \<Rightarrow> map_entries entries (map_set es k x) h))
      | _ \<Rightarrow> Inl TypeError)"

definition Map_class :: Constructor where
  "Map_class =
     \<lparr>ctor_name = ''Map'',
      ctor_new = (\<lambda>args h.
        case args of
          [] \<Rightarrow> Inr (alloc (HMap []) h)
        | elems # _ \<Rightarrow>
            (case elems of
               VUndefined \<Rightarrow> Inr (alloc (HMap []) h)
             | VNull \<Rightarrow> Inr (alloc (HMap []) h)
             | VObject a \<Rightarrow>
                 (case cell h a of
                    Some (HArray entries) \<Rightarrow>
                      (case map_entries entries [] h of
                         Inl e \<Rightarrow> Inl e
                       | Inr es \<Rightarrow> Inr (alloc (HMap es) h))
                  | _ \<Rightarrow> Inl Unmodelled)
             | _ \<Rightarrow> Inl TypeError))\<rparr>"

section \<open>deserted: options and the engine\<close>

text \<open>
  The text that the stringifier produces is represented by the JSON document it denotes:
  \<open>JSON.parse\<close> of the text of a document gives the document back.
\<close>

datatype json =
    JNull
  | JBool bool
  | JNum int
  | JStr string
  | JArr "json list"
  | JObj "(string \<times> json) list"

record Stringifier =
  convertToString :: "SerItem \<Rightarrow> error + json"
  convertFromString :: "json \<Rightarrow> error + SerItem"

record Options =
  noRefs :: bool
  functionConverter :: Converter
  symbolConverter :: Converter
  stringifier :: Stringifier

subsection \<open>The default stringifier: JSON\<close>

text \<open>
  \<open>JSON.stringify\<close> leaves out a property whose value is \<open>undefined\<close>, a symbol or a
  function. An item is a JavaScript object with the keys of its shape.
\<close>

definition json_payload :: "jsval \<Rightarrow> error + json option" where
  "json_payload v =
     (case v of
        VUndefined \<Rightarrow> Inr None
      | VNull \<Rightarrow> Inr (Some JNull)
      | VBool b \<Rightarrow> Inr (Some (JBool b))
      | VNum n \<Rightarrow> Inr (Some (JNum n))
      | VStr s \<Rightarrow> Inr (Some (JStr s))
      | VSymbol d g \<Rightarrow> Inr None
      | VFunction f \<Rightarrow> Inr None
      | VObject a \<Rightarrow> Inl Unmodelled)"

fun JSON_stringify :: "SerItem \<Rightarrow> error + json"
  and stringify_elems :: "SerItem list \<Rightarrow> error + json list"
  and stringify_props :: "(string \<times> SerItem) list \<Rightarrow> error + (string \<times> json) list" where
  "JSON_stringify (Val v) =
     (case json_payload v of
        Inl e \<Rightarrow> Inl e
      | Inr None \<Rightarrow> Inr (JObj [])
      | Inr (Some j) \<Rightarrow> Inr (JObj [(''val'', j)]))"
| "JSON_stringify (Ref path) = Inr (JObj [(''ref'', JArr (map JStr path))])"
| "JSON_stringify (Obj obj) =
     (case stringify_props obj of
        Inl e \<Rightarrow> Inl e
      | Inr props \<Rightarrow> Inr (JObj [(''obj'', JObj props)]))"
| "JSON_stringify (Fun t) =
     (case JSON_stringify t of
        Inl e \<Rightarrow> Inl e
      | Inr j \<Rightarrow> Inr (JObj [(''fun'', j)]))"
| "JSON_stringify (Sym v) =
     (case json_payload v of
        Inl e \<Rightarrow> Inl e
      | Inr None \<Rightarrow> Inr (JObj [])
      | Inr (Some j) \<Rightarrow> Inr (JObj [(''sym'', j)]))"
| "JSON_stringify (Arr items) =
     (case stringify_elems items of
        Inl e \<Rightarrow> Inl e
      | Inr js \<Rightarrow> Inr (JArr js))"
| "JSON_stringify (Proto proto state) =
     (case JSON_stringify state of
        Inl e \<Rightarrow> Inl e
      | Inr j \<Rightarrow> Inr (JObj [(''proto'', JStr proto), (''state'', j)]))"
| "JSON_stringify Unknown = Inl Unmodelled"
| "JSON_stringify NonObject = Inl Unmodelled"
| "stringify_elems [] = Inr []"
| "stringify_elems (t # ts) =
     (case JSON_stringify t of
        Inl e \<Rightarrow> Inl e
      | Inr j \<Rightarrow>
          (case stringify_elems ts of
             Inl e \<Rightarrow> Inl e
           | Inr js \<Rightarrow> Inr (j # js)))"
| "stringify_props [] = Inr []"
| "stringify_props ((k, t) # props) =
     (case JSON_stringify t of
        Inl e \<Rightarrow> Inl e
      | Inr j \<Rightarrow>
          (case stringify_props props of
             Inl e \<Rightarrow> Inl e
           | Inr js \<Rightarrow> Inr ((k, j) # js)))"

text \<open>
  What \<open>des\<close> sees in a parsed document: the shape tests \<open>'val' in item\<close>,
  \<open>'fun' in item\<close>, \<open>'sym' in item\<close>, \<open>'ref' in item\<close>, \<open>'obj' in item\<close>,
  \<open>Array.isArray(item)\<close>, \<open>'proto' in item\<close>, in this order.
\<close>

definition payload_value :: "json \<Rightarrow> error + jsval" where
  "payload_value j =
     (case j of
        JNull \<Rightarrow> Inr VNull
      | JBool b \<Rightarrow> Inr (VBool b)
      | JNum n \<Rightarrow> Inr (VNum n)
      | JStr s \<Rightarrow> Inr (VStr s)
      | _ \<Rightarrow> Inl Unmodelled)"

fun path_value :: "json list \<Rightarrow> error + Path" where
  "path_value [] = Inr []"
| "path_value (JStr s # js) =
     (case path_value js of Inl e \<Rightarrow> Inl e | Inr path \<Rightarrow> Inr (s # path))"
| "path_value (_ # js) = Inl Unmodelled"

lemma map_of_json_size:
  "map_of flds k = Some j \<Longrightarrow> size j < Suc (size_list (size_prod (\<lambda>_. 0) size) flds)"
  by (induction flds) (auto split: if_splits)

function JSON_parse :: "json \<Rightarrow> error + SerItem"
  and parse_elems :: "json list \<Rightarrow> error + SerItem list"
  and parse_props :: "(string \<times> json) list \<Rightarrow> error + (string \<times> SerItem) list" where
  "JSON_parse (JObj flds) =
     (case map_of flds ''val'' of
        Some j \<Rightarrow> (case payload_value j of Inl e \<Rightarrow> Inl e | Inr v \<Rightarrow> Inr (Val v))
      | None \<Rightarrow>
     (case map_of flds ''fun'' of
        Some j \<Rightarrow> (case JSON_parse j of Inl e \<Rightarrow> Inl e | Inr t \<Rightarrow> Inr (Fun t))
      | None \<Rightarrow>
     (case map_of flds ''sym'' of
        Some j \<Rightarrow> (case payload_value j of Inl e \<Rightarrow> Inl e | Inr v \<Rightarrow> Inr (Sym v))
      | None \<Rightarrow>
     (case map_of flds ''ref'' of
        Some j \<Rightarrow>
          (case j of
             JArr js \<Rightarrow> (case path_value js of Inl e \<Rightarrow> Inl e | Inr path \<Rightarrow> Inr (Ref path))
           | _ \<Rightarrow> Inl Unmodelled)
      | None \<Rightarrow>
     (case map_of flds ''obj'' of
        Some j \<Rightarrow>
          (case j of
             JObj fs \<Rightarrow> (case parse_props fs of Inl e \<Rightarrow> Inl e | Inr obj \<Rightarrow> Inr (Obj obj))
           | _ \<Rightarrow> Inl Unmodelled)
      | None \<Rightarrow>
     (case map_of flds ''proto'' of
        Some j \<Rightarrow>
          (case j of
             JStr proto \<Rightarrow>
               (case map_of flds ''state'' of
                  None \<Rightarrow> Inr (Proto proto NonObject)
                | Some s \<Rightarrow>
                    (case JSON_parse s of Inl e \<Rightarrow> Inl e | Inr t \<Rightarrow> Inr (Proto proto t)))
           | _ \<Rightarrow> Inl Unmodelled)
      | None \<Rightarrow> Inr Unknown))))))"
| "JSON_parse (JArr js) =
     (case parse_elems js of Inl e \<Rightarrow> Inl e | Inr items \<Rightarrow> Inr (Arr items))"
| "JSON_parse JNull = Inr NonObject"
| "JSON_parse (JBool b) = Inr NonObject"
| "JSON_parse (JNum n) = Inr NonObject"
| "JSON_parse (JStr s) = Inr NonObject"
| "parse_elems [] = Inr []"
| "parse_elems (j # js) =
     (case JSON_parse j of
        Inl e \<Rightarrow> Inl e
      | Inr t \<Rightarrow>
          (case parse_elems js of
             Inl e \<Rightarrow> Inl e
           | Inr ts \<Rightarrow> Inr (t # ts)))"
| "parse_props [] = Inr []"
| "parse_props ((k, j) # fs) =
     (case JSON_parse j of
        Inl e \<Rightarrow> Inl e
      | Inr t \<Rightarrow>
          (case parse_props fs of
             Inl e \<Rightarrow> Inl e
           | Inr ts \<Rightarrow> Inr ((k, t) # ts)))"
  by pat_completeness auto
termination
  by (relation "measure (\<lambda>x. case x of
        Inl j \<Rightarrow> size j
      | Inr (Inl js) \<Rightarrow> size_list size js
      | Inr (Inr fs) \<Rightarrow> size_list (size_prod (\<lambda>_. 0) size) fs)")
    (auto dest: map_of_json_size)

definition defaultOptions :: Options where
  "defaultOptions =
     \<lparr>noRefs = False,
      functionConverter = DefaultFunctionConverter,
      symbolConverter = DefaultSymbolConverter,
      stringifier = \<lparr>convertToString = JSON_stringify, convertFromString = JSON_parse\<rparr>\<rparr>"

subsection \<open>normalize\<close>

text \<open>
  \<open>dict\<close> is the \<open>Map\<close> from object identity to the path of the first visit. The
  state of the walk is the dictionary and the heap (a converter may allocate).

  A walk of an unbounded graph does not return, so \<open>ser\<close> takes the depth of recursion
  it may use: \<open>None\<close> says that the depth was not enough, \<open>Some (Inl e)\<close> that the
  code throws, \<open>Some (Inr r)\<close> that it returns.

  The elements of an array and the properties of an object are read when the walk enters
  the cell; a cell's property names are distinct.
\<close>

type_synonym dict = "addr \<rightharpoonup> Path"

type_synonym ser_fun = "jsval \<Rightarrow> Path \<Rightarrow> dict \<times> heap \<Rightarrow> (error + SerItem \<times> dict \<times> heap) option"

text \<open>\<open>item.map((elem, index) => ser(elem, [...path, String(index)]))\<close>\<close>

fun map_elems :: "ser_fun \<Rightarrow> jsval list \<Rightarrow> nat \<Rightarrow> Path \<Rightarrow> dict \<times> heap
    \<Rightarrow> (error + SerItem list \<times> dict \<times> heap) option" where
  "map_elems f [] index path st = Some (Inr ([], st))"
| "map_elems f (elem # rest) index path st =
     (case f elem (path @ [String_index index]) st of
        None \<Rightarrow> None
      | Some (Inl e) \<Rightarrow> Some (Inl e)
      | Some (Inr (t, st')) \<Rightarrow>
          (case map_elems f rest (Suc index) path st' of
             None \<Rightarrow> None
           | Some (Inl e) \<Rightarrow> Some (Inl e)
           | Some (Inr (ts, st'')) \<Rightarrow> Some (Inr (t # ts, st''))))"

text \<open>
  \<open>for (const key in item) ... obj[key] = ser(item[key], [...path, key])\<close>. The
  assignment under the key \<open>__proto__\<close> goes through the setter of \<open>Object.prototype\<close>:
  \<open>obj\<close> gets no own property and the item becomes its prototype. The items of this
  model have no prototype, so the walk of an object with an own property of this name is
  followed up to that assignment and no further.
\<close>

fun map_props :: "ser_fun \<Rightarrow> (string \<times> jsval) list \<Rightarrow> Path \<Rightarrow> dict \<times> heap
    \<Rightarrow> (error + (string \<times> SerItem) list \<times> dict \<times> heap) option" where
  "map_props f [] path st = Some (Inr ([], st))"
| "map_props f ((key, x) # rest) path st =
     (case f x (path @ [key]) st of
        None \<Rightarrow> None
      | Some (Inl e) \<Rightarrow> Some (Inl e)
      | Some (Inr (t, st')) \<Rightarrow>
          (if key = ''__proto__'' then Some (Inl Unmodelled)
           else
             (case map_props f rest path st' of
                None \<Rightarrow> None
              | Some (Inl e) \<Rightarrow> Some (Inl e)
              | Some (Inr (ts, st'')) \<Rightarrow> Some (Inr ((key, t) # ts, st'')))))"

text \<open>
  \<open>item.constructor\<close> is a property read: an own property of the name shadows the
  constructor that the prototype gives.
\<close>

fun item_constructor :: "hobj \<Rightarrow> jsval" where
  "item_constructor (HArray xs) = VFunction ''Array''"
| "item_constructor (HObject c props) =
     (case map_of props ''constructor'' of
        Some x \<Rightarrow> x
      | None \<Rightarrow> (case c of None \<Rightarrow> VUndefined | Some name \<Rightarrow> VFunction name))"
| "item_constructor (HMap es) = VFunction ''Map''"
| "item_constructor (HSet xs) = VFunction ''Set''"
| "item_constructor (HBoxed c x) = VFunction c"

text \<open>
  \<open>if (item.constructor === undefined) throw Error('no constructor')\<close> and
  \<open>const { name } = item.constructor\<close>. A function has its name; a string, a number, a
  boolean and a symbol have no property \<open>name\<close>, so the name is \<open>undefined\<close>
  (\<open>None\<close>); \<open>null\<close> cannot be destructured.
\<close>

definition constructor_name :: "hobj \<Rightarrow> error + string option" where
  "constructor_name ob =
     (case item_constructor ob of
        VUndefined \<Rightarrow> Inl NoConstructor
      | VNull \<Rightarrow> Inl TypeError
      | VFunction f \<Rightarrow> Inr (Some f)
      | VObject b \<Rightarrow> Inl Unmodelled
      | _ \<Rightarrow> Inr None)"

text \<open>
  \<open>converters[name]\<close>. The configuration is an object: a name that is not its own key
  and is a member of \<open>Object.prototype\<close> reads that member, which is not
  \<open>undefined\<close> and has neither \<open>from\<close> nor \<open>to\<close>, so calling them throws. The name
  \<open>undefined\<close> is read as the key \<open>undefined\<close>.
\<close>

definition not_a_converter :: Converter where
  "not_a_converter = \<lparr>conv_from = (\<lambda>item h. Inl TypeError), conv_to = (\<lambda>item h. Inl TypeError)\<rparr>"

definition converter_of :: "ConverterConfig \<Rightarrow> string \<Rightarrow> Converter option" where
  "converter_of cs name =
     (case cs name of
        Some converter \<Rightarrow> Some converter
      | None \<Rightarrow> if name \<in> set Object_prototype then Some not_a_converter else None)"

text \<open>
  The values that \<open>ser\<close> copies into a \<open>val\<close> item: those that are not a function, a
  symbol or an object.
\<close>

fun primitive :: "jsval \<Rightarrow> bool" where
  "primitive (VFunction f) = False"
| "primitive (VSymbol d g) = False"
| "primitive (VObject a) = False"
| "primitive v = True"

primrec ser :: "nat \<Rightarrow> ConverterConfig \<Rightarrow> Options \<Rightarrow> ser_fun" where
  "ser 0 cs opts item path st = None"
| "ser (Suc n) cs opts item path st =
     (case item of
        VFunction f \<Rightarrow>
          (case conv_from (functionConverter opts) item (snd st) of
             Inl e \<Rightarrow> Some (Inl e)
           | Inr (x, h') \<Rightarrow>
               (case ser n cs opts x path (fst st, h') of
                  None \<Rightarrow> None
                | Some (Inl e) \<Rightarrow> Some (Inl e)
                | Some (Inr (t, st')) \<Rightarrow> Some (Inr (Fun t, st'))))
      | VSymbol d g \<Rightarrow>
          (case conv_from (symbolConverter opts) item (snd st) of
             Inl e \<Rightarrow> Some (Inl e)
           | Inr (x, h') \<Rightarrow> Some (Inr (Sym x, fst st, h')))
      | VObject a \<Rightarrow>
          (case fst st a of
             Some ref \<Rightarrow>
               (if noRefs opts then Some (Inl ReferenceFound) else Some (Inr (Ref ref, st)))
           | None \<Rightarrow>
               (case cell (snd st) a of
                  None \<Rightarrow> Some (Inl Unmodelled)
                | Some (HArray xs) \<Rightarrow>
                    (case map_elems (ser n cs opts) xs 0 path ((fst st)(a \<mapsto> path), snd st) of
                       None \<Rightarrow> None
                     | Some (Inl e) \<Rightarrow> Some (Inl e)
                     | Some (Inr (ts, st')) \<Rightarrow> Some (Inr (Arr ts, st')))
                | Some ob \<Rightarrow>
                    (case constructor_name ob of
                       Inl e \<Rightarrow> Some (Inl e)
                     | Inr name \<Rightarrow>
                         (if name = Some ''Object'' then
                            (case own_props item (snd st) of
                               Inl e \<Rightarrow> Some (Inl e)
                             | Inr props \<Rightarrow>
                                 (case map_props (ser n cs opts) props path
                                         ((fst st)(a \<mapsto> path), snd st) of
                                    None \<Rightarrow> None
                                  | Some (Inl e) \<Rightarrow> Some (Inl e)
                                  | Some (Inr (obj, st')) \<Rightarrow> Some (Inr (Obj obj, st'))))
                          else
                            (case converter_of cs (case name of None \<Rightarrow> ''undefined'' | Some s \<Rightarrow> s) of
                               None \<Rightarrow> Some (Inl UnregisteredClass)
                             | Some converter \<Rightarrow>
                                 (case name of
                                    None \<Rightarrow> Some (Inl Unmodelled)
                                  | Some proto \<Rightarrow>
                                      (case conv_from converter item (snd st) of
                                         Inl e \<Rightarrow> Some (Inl e)
                                       | Inr (x, h') \<Rightarrow>
                                           (case ser n cs opts x path ((fst st)(a \<mapsto> path), h') of
                                              None \<Rightarrow> None
                                            | Some (Inl e) \<Rightarrow> Some (Inl e)
                                            | Some (Inr (t, st')) \<Rightarrow>
                                                Some (Inr (Proto proto t, st'))))))))))
      | _ \<Rightarrow> Some (Inr (Val item, st)))"

text \<open>\<open>normalize\<close> returns the item; the heap is returned with it.\<close>

definition normalize :: "nat \<Rightarrow> ConverterConfig \<Rightarrow> Options \<Rightarrow> jsval \<Rightarrow> heap
    \<Rightarrow> (error + SerItem \<times> heap) option" where
  "normalize n cs opts input h =
     (case ser n cs opts input [] (Map.empty, h) of
        None \<Rightarrow> None
      | Some (Inl e) \<Rightarrow> Some (Inl e)
      | Some (Inr (t, dict, h')) \<Rightarrow> Some (Inr (t, h')))"

subsection \<open>denormalize\<close>

text \<open>
  The state of the first pass is the list of actions and the heap. The object under
  construction is not reachable before \<open>des\<close> returns it, so it is allocated once its
  properties are known.

  \<open>obj.hasOwnProperty(key)\<close> reads the method from \<open>obj\<close> itself: when \<open>obj\<close> has
  an own key \<open>hasOwnProperty\<close>, the value of that key is an item, not a function, and
  the call throws at the first key. \<open>result[key] = ...\<close> under the key \<open>__proto__\<close>
  goes through the setter of \<open>Object.prototype\<close>: \<open>result\<close> gets no own property;
  an object, a function or \<open>null\<close> becomes its prototype (not modelled), any other
  value is dropped.
\<close>

fun sets_prototype :: "jsval \<Rightarrow> bool" where
  "sets_prototype (VObject a) = True"
| "sets_prototype (VFunction f) = True"
| "sets_prototype VNull = True"
| "sets_prototype v = False"

definition shadows_hasOwnProperty :: "(string \<times> SerItem) list \<Rightarrow> bool" where
  "shadows_hasOwnProperty obj \<longleftrightarrow> map_of obj ''hasOwnProperty'' \<noteq> None"

text \<open>\<open>result[key] = x\<close> on the properties collected so far, for the keys that follow.\<close>

definition result_prop :: "string \<Rightarrow> jsval \<Rightarrow> error + (string \<times> jsval) list" where
  "result_prop key x =
     (if key = ''__proto__'' then (if sets_prototype x then Inl Unmodelled else Inr [])
      else Inr [(key, x)])"

fun des :: "Options \<Rightarrow> SerItem \<Rightarrow> Path \<Rightarrow> Action list \<times> heap
    \<Rightarrow> error + jsval \<times> Action list \<times> heap"
  and des_elems :: "Options \<Rightarrow> SerItem list \<Rightarrow> nat \<Rightarrow> Path \<Rightarrow> Action list \<times> heap
    \<Rightarrow> error + jsval list \<times> Action list \<times> heap"
  and des_props :: "Options \<Rightarrow> (string \<times> SerItem) list \<Rightarrow> Path \<Rightarrow> Action list \<times> heap
    \<Rightarrow> error + (string \<times> jsval) list \<times> Action list \<times> heap" where
  "des opts (Val v) path st = Inr (v, st)"
| "des opts (Fun t) path st =
     (case des opts t path st of
        Inl e \<Rightarrow> Inl e
      | Inr (x, actions, h) \<Rightarrow>
          (case conv_to (functionConverter opts) x h of
             Inl e \<Rightarrow> Inl e
           | Inr (y, h') \<Rightarrow> Inr (y, actions, h')))"
| "des opts (Sym s) path st =
     (case conv_to (symbolConverter opts) s (snd st) of
        Inl e \<Rightarrow> Inl e
      | Inr (y, h') \<Rightarrow> Inr (y, fst st, h'))"
| "des opts (Ref r) path st = Inr (VNull, fst st @ [CopyAction path r], snd st)"
| "des opts (Obj obj) path st =
     (if shadows_hasOwnProperty obj then Inl TypeError
      else
        (case des_props opts obj path st of
           Inl e \<Rightarrow> Inl e
         | Inr (result, actions, h) \<Rightarrow>
             (case alloc (HObject (Some ''Object'') result) h of
                (x, h') \<Rightarrow> Inr (x, actions, h'))))"
| "des opts (Arr items) path st =
     (case des_elems opts items 0 path st of
        Inl e \<Rightarrow> Inl e
      | Inr (result, actions, h) \<Rightarrow>
          (case alloc (HArray result) h of
             (x, h') \<Rightarrow> Inr (x, actions, h')))"
| "des opts (Proto proto state) path st =
     des opts state path (fst st @ [ConvertAction proto path], snd st)"
| "des opts Unknown path st = Inl UnknownItem"
| "des opts NonObject path st = Inl TypeError"
| "des_elems opts [] index path st = Inr ([], st)"
| "des_elems opts (elem # rest) index path st =
     (case des opts elem (path @ [String_index index]) st of
        Inl e \<Rightarrow> Inl e
      | Inr (x, st') \<Rightarrow>
          (case des_elems opts rest (Suc index) path st' of
             Inl e \<Rightarrow> Inl e
           | Inr (xs, st'') \<Rightarrow> Inr (x # xs, st'')))"
| "des_props opts [] path st = Inr ([], st)"
| "des_props opts ((key, t) # rest) path st =
     (case des opts t (path @ [key]) st of
        Inl e \<Rightarrow> Inl e
      | Inr (x, st') \<Rightarrow>
          (case result_prop key x of
             Inl e \<Rightarrow> Inl e
           | Inr kept \<Rightarrow>
               (case des_props opts rest path st' of
                  Inl e \<Rightarrow> Inl e
                | Inr (xs, st'') \<Rightarrow> Inr (kept @ xs, st''))))"

text \<open>
  The loop over the sorted actions. A conversion at the root returns from
  \<open>denormalize\<close> at once, whatever actions are left.
\<close>

fun apply_actions :: "ConverterConfig \<Rightarrow> Action list \<Rightarrow> jsval \<Rightarrow> heap \<Rightarrow> error + jsval \<times> heap" where
  "apply_actions cs [] result h = Inr (result, h)"
| "apply_actions cs (CopyAction target source # actions) result h =
     (case Path_copyProperty result source target h of
        Inl e \<Rightarrow> Inl e
      | Inr h' \<Rightarrow> apply_actions cs actions result h')"
| "apply_actions cs (ConvertAction convertTo path # actions) result h =
     (case converter_of cs convertTo of
        None \<Rightarrow> Inl NoConverter
      | Some converter \<Rightarrow>
          (if length path \<le> 0 then conv_to converter result h
           else
             (case Path_find result (Arr_init path) h of
                Inl e \<Rightarrow> Inl e
              | Inr parent \<Rightarrow>
                  (case Arr_last path of
                     None \<Rightarrow> Inl Unmodelled
                   | Some propName \<Rightarrow>
                       (case get_prop parent propName h of
                          Inl e \<Rightarrow> Inl e
                        | Inr x \<Rightarrow>
                            (case conv_to converter x h of
                               Inl e \<Rightarrow> Inl e
                             | Inr (y, h') \<Rightarrow>
                                 (case set_prop parent propName y h' of
                                    Inl e \<Rightarrow> Inl e
                                  | Inr h'' \<Rightarrow> apply_actions cs actions result h'')))))))"

definition denormalize :: "ConverterConfig \<Rightarrow> Options \<Rightarrow> SerItem \<Rightarrow> heap \<Rightarrow> error + jsval \<times> heap" where
  "denormalize cs opts input h =
     (case des opts input [] ([], h) of
        Inl e \<Rightarrow> Inl e
      | Inr (result, actions, h') \<Rightarrow>
          apply_actions cs (sort_cmp Action_compare actions) result h')"

subsection \<open>clone, serialize, deserialize\<close>

definition clone :: "nat \<Rightarrow> ConverterConfig \<Rightarrow> Options \<Rightarrow> jsval \<Rightarrow> heap
    \<Rightarrow> (error + jsval \<times> heap) option" where
  "clone n cs opts input h =
     (case normalize n cs opts input h of
        None \<Rightarrow> None
      | Some (Inl e) \<Rightarrow> Some (Inl e)
      | Some (Inr (t, h')) \<Rightarrow> Some (denormalize cs opts t h'))"

definition serialize :: "nat \<Rightarrow> ConverterConfig \<Rightarrow> Options \<Rightarrow> jsval \<Rightarrow> heap
    \<Rightarrow> (error + json \<times> heap) option" where
  "serialize n cs opts input h =
     (case normalize n cs opts input h of
        None \<Rightarrow> None
      | Some (Inl e) \<Rightarrow> Some (Inl e)
      | Some (Inr (t, h')) \<Rightarrow>
          (case convertToString (stringifier opts) t of
             Inl e \<Rightarrow> Some (Inl e)
           | Inr text \<Rightarrow> Some (Inr (text, h'))))"

definition deserialize :: "ConverterConfig \<Rightarrow> Options \<Rightarrow> json \<Rightarrow> heap \<Rightarrow> error + jsval \<times> heap" where
  "deserialize cs opts input h =
     (case convertFromString (stringifier opts) input of
        Inl e \<Rightarrow> Inl e
      | Inr t \<Rightarrow> denormalize cs opts t h)"

subsection \<open>The engine: Deserted\<close>

text \<open>
  An engine holds two references, to a converter configuration and to an options object.
  Both objects live in a store of their own, so that what \<open>withConverters\<close> and
  \<open>withOptions\<close> allocate, copy and write is explicit. \<open>Object.assign\<close> writes
  into its target.
\<close>

record Store =
  config_cells :: "ConverterConfig list"
  options_cells :: "Options list"

record Deserted =
  converters :: addr
  options :: addr

text \<open>The argument of \<open>withOptions\<close>: any of the keys may be missing.\<close>

record OptionsPatch =
  patch_noRefs :: "bool option"
  patch_functionConverter :: "Converter option"
  patch_symbolConverter :: "Converter option"
  patch_stringifier :: "Stringifier option"

text \<open>\<open>{ ...this.options, ...options }\<close>\<close>

definition spread_options :: "Options \<Rightarrow> OptionsPatch \<Rightarrow> Options" where
  "spread_options this patch =
     \<lparr>noRefs = (case patch_noRefs patch of None \<Rightarrow> noRefs this | Some b \<Rightarrow> b),
      functionConverter =
        (case patch_functionConverter patch of None \<Rightarrow> functionConverter this | Some c \<Rightarrow> c),
      symbolConverter =
        (case patch_symbolConverter patch of None \<Rightarrow> symbolConverter this | Some c \<Rightarrow> c),
      stringifier =
        (case patch_stringifier patch of None \<Rightarrow> stringifier this | Some c \<Rightarrow> c)\<rparr>"

text \<open>The constructor, with its default parameter for the options.\<close>

definition Deserted_new :: "ConverterConfig \<Rightarrow> Options option \<Rightarrow> Store \<Rightarrow> Deserted \<times> Store" where
  "Deserted_new cfg opts s =
     (\<lparr>converters = length (config_cells s), options = length (options_cells s)\<rparr>,
      \<lparr>config_cells = config_cells s @ [cfg],
       options_cells = options_cells s @ [case opts of None \<Rightarrow> defaultOptions | Some x \<Rightarrow> x]\<rparr>)"

definition Deserted_empty :: "Options option \<Rightarrow> Store \<Rightarrow> Deserted \<times> Store" where
  "Deserted_empty opts s = Deserted_new Map.empty opts s"

text \<open>The objects an engine refers to.\<close>

definition registry :: "Store \<Rightarrow> Deserted \<Rightarrow> ConverterConfig" where
  "registry s this = config_cells s ! converters this"

definition settings :: "Store \<Rightarrow> Deserted \<Rightarrow> Options" where
  "settings s this = options_cells s ! options this"

text \<open>
  \<open>withConverters\<close>: \<open>newConverters\<close> is a fresh copy of the engine's configuration;
  each argument is assigned into it; the new engine refers to it and to the options
  object of \<open>this\<close>.
\<close>

definition assign_cell :: "addr \<Rightarrow> ConverterConfig \<Rightarrow> Store \<Rightarrow> Store" where
  "assign_cell target source s =
     s\<lparr>config_cells := (config_cells s)[target := Object_assign (config_cells s ! target) source]\<rparr>"

definition withConverters :: "Deserted \<Rightarrow> ConverterConfig list \<Rightarrow> Store \<Rightarrow> Deserted \<times> Store" where
  "withConverters this convs s =
     (let newConverters = length (config_cells s);
          s1 = s\<lparr>config_cells := config_cells s @ [registry s this]\<rparr>;
          s2 = fold (\<lambda>converter. assign_cell newConverters converter) convs s1
      in (\<lparr>converters = newConverters, options = options this\<rparr>, s2))"

text \<open>
  \<open>withOptions\<close>: the new engine refers to the configuration object of \<open>this\<close> and to a
  fresh options object.
\<close>

definition withOptions :: "Deserted \<Rightarrow> OptionsPatch \<Rightarrow> Store \<Rightarrow> Deserted \<times> Store" where
  "withOptions this patch s =
     (\<lparr>converters = converters this, options = length (options_cells s)\<rparr>,
      s\<lparr>options_cells := options_cells s @ [spread_options (settings s this) patch]\<rparr>)"

text \<open>The methods of an engine read its two objects.\<close>

definition Deserted_normalize :: "nat \<Rightarrow> Store \<Rightarrow> Deserted \<Rightarrow> jsval \<Rightarrow> heap
    \<Rightarrow> (error + SerItem \<times> heap) option" where
  "Deserted_normalize n s this input h = normalize n (registry s this) (settings s this) input h"

definition Deserted_denormalize :: "Store \<Rightarrow> Deserted \<Rightarrow> SerItem \<Rightarrow> heap \<Rightarrow> error + jsval \<times> heap" where
  "Deserted_denormalize s this input h = denormalize (registry s this) (settings s this) input h"

definition Deserted_clone :: "nat \<Rightarrow> Store \<Rightarrow> Deserted \<Rightarrow> jsval \<Rightarrow> heap
    \<Rightarrow> (error + jsval \<times> heap) option" where
  "Deserted_clone n s this input h = clone n (registry s this) (settings s this) input h"

definition Deserted_serialize :: "nat \<Rightarrow> Store \<Rightarrow> Deserted \<Rightarrow> jsval \<Rightarrow> heap
    \<Rightarrow> (error + json \<times> heap) option" where
  "Deserted_serialize n s this input h = serialize n (registry s this) (settings s this) input h"

definition Deserted_deserialize :: "Store \<Rightarrow> Deserted \<Rightarrow> json \<Rightarrow> heap \<Rightarrow> error + jsval \<times> heap" where
  "Deserted_deserialize s this input h = deserialize (registry s this) (settings s this) input h"

text \<open>An engine of a store: its two references point into the store.\<close>

definition engine_of :: "Store \<Rightarrow> Deserted \<Rightarrow> bool" where
  "engine_of s this \<longleftrightarrow>
     converters this < length (config_cells s) \<and> options this < length (options_cells s)"

text \<open>The configuration that assigning the fragments in turn builds.\<close>

definition merged :: "ConverterConfig \<Rightarrow> ConverterConfig list \<Rightarrow> ConverterConfig" where
  "merged base convs = fold (\<lambda>converter result. Object_assign result converter) convs base"

section \<open>Notions used in the properties\<close>

text \<open>
  Two stores give an engine the same behaviour when it refers to the same configuration
  and options in both and each of its methods is the same function in both.
\<close>

definition same_behaviour :: "Store \<Rightarrow> Store \<Rightarrow> Deserted \<Rightarrow> bool" where
  "same_behaviour s s' this \<longleftrightarrow>
     registry s' this = registry s this \<and> settings s' this = settings s this
   \<and> (\<lambda>n. Deserted_normalize n s' this) = (\<lambda>n. Deserted_normalize n s this)
   \<and> Deserted_denormalize s' this = Deserted_denormalize s this
   \<and> (\<lambda>n. Deserted_clone n s' this) = (\<lambda>n. Deserted_clone n s this)
   \<and> (\<lambda>n. Deserted_serialize n s' this) = (\<lambda>n. Deserted_serialize n s this)
   \<and> Deserted_deserialize s' this = Deserted_deserialize s this"

text \<open>The store and the engine that \<open>Deserted.empty()\<close> makes from nothing.\<close>

definition store0 :: Store where
  "store0 = snd (Deserted_empty None \<lparr>config_cells = [], options_cells = []\<rparr>)"

definition engine0 :: Deserted where
  "engine0 = fst (Deserted_empty None \<lparr>config_cells = [], options_cells = []\<rparr>)"

text \<open>Two classes with one runtime name.\<close>

definition class_A :: Constructor where "class_A = user_class ''Point'' [(''x'', VNum 0)]"

definition class_B :: Constructor where "class_B = user_class ''Point'' [(''label'', VStr ''b'')]"

text \<open>An item that holds a reference somewhere.\<close>

fun has_ref :: "SerItem \<Rightarrow> bool"
  and has_ref_list :: "SerItem list \<Rightarrow> bool"
  and has_ref_props :: "(string \<times> SerItem) list \<Rightarrow> bool" where
  "has_ref (Val v) = False"
| "has_ref (Ref path) = True"
| "has_ref (Obj obj) = has_ref_props obj"
| "has_ref (Fun t) = has_ref t"
| "has_ref (Sym v) = False"
| "has_ref (Arr items) = has_ref_list items"
| "has_ref (Proto proto state) = has_ref state"
| "has_ref Unknown = False"
| "has_ref NonObject = False"
| "has_ref_list [] = False"
| "has_ref_list (t # ts) = (has_ref t \<or> has_ref_list ts)"
| "has_ref_props [] = False"
| "has_ref_props ((k, t) # props) = (has_ref t \<or> has_ref_props props)"

text \<open>Registries and heaps of the examples.\<close>

definition Node_class :: Constructor where
  "Node_class = user_class ''Node'' []"

definition node_registry :: ConverterConfig where
  "node_registry = Converters_allProps Node_class"

definition node_heap :: heap where
  "node_heap = [HObject (Some ''Node'') [(''v'', VNum 1)]]"

definition shared_heap :: heap where
  "shared_heap = [HArray [VObject 1, VObject 1], HObject (Some ''Object'') [(''value'', VNum 1)]]"

definition functions_heap :: heap where
  "functions_heap = [HArray [VFunction ''f'', VFunction ''f'']]"



text \<open>
  A registry whose converter for the class \<open>A\<close> extracts a fresh instance of \<open>A\<close> as
  the state, and the heap of an object that is its own property.
\<close>

definition spawn_registry :: ConverterConfig where
  "spawn_registry =
     [''A'' \<mapsto> Converter_create (\<lambda>obj h. Inr (alloc (HObject (Some ''A'') []) h))
                                  (\<lambda>state h. Inr (state, h))]"

definition self_heap :: heap where
  "self_heap = [HObject (Some ''Object'') [(''self'', VObject 0)]]"

text \<open>
  An instance of the class \<open>Node\<close> that is its own property, alone and as the element
  of an array.
\<close>

definition root_cycle_heap :: heap where
  "root_cycle_heap = [HObject (Some ''Node'') [(''self'', VObject 0)]]"

definition nested_cycle_heap :: heap where
  "nested_cycle_heap = [HObject (Some ''Node'') [(''self'', VObject 0)], HArray [VObject 0]]"

text \<open>
  Structural equality of two values, each in its heap: their unfoldings to every depth are
  the same tree. An unfolding follows the pointers and cuts at the given depth, so it is
  defined on cyclic values too.
\<close>

datatype shape =
    SVal jsval
  | SArr "shape list"
  | SObj "string option" "(string \<times> shape) list"
  | SMap "(shape \<times> shape) list"
  | SSet "shape list"
  | SBoxed string shape
  | SDangling
  | SCut

primrec unfold :: "nat \<Rightarrow> heap \<Rightarrow> jsval \<Rightarrow> shape" where
  "unfold 0 h v = SCut"
| "unfold (Suc n) h v =
     (case v of
        VObject a \<Rightarrow>
          (case cell h a of
             None \<Rightarrow> SDangling
           | Some (HArray xs) \<Rightarrow> SArr (map (unfold n h) xs)
           | Some (HObject c props) \<Rightarrow> SObj c (map (\<lambda>kx. (fst kx, unfold n h (snd kx))) props)
           | Some (HMap es) \<Rightarrow> SMap (map (\<lambda>kx. (unfold n h (fst kx), unfold n h (snd kx))) es)
           | Some (HSet xs) \<Rightarrow> SSet (map (unfold n h) xs)
           | Some (HBoxed c x) \<Rightarrow> SBoxed c (unfold n h x))
      | _ \<Rightarrow> SVal v)"

definition structurally_equal :: "heap \<Rightarrow> jsval \<Rightarrow> heap \<Rightarrow> jsval \<Rightarrow> bool" where
  "structurally_equal h v h' v' \<longleftrightarrow> (\<forall>n. unfold n h v = unfold n h' v')"

text \<open>
  A class that wraps one value, which its constructor takes and its \<open>valueOf\<close>
  returns; the heap of the array \<open>[inner, w]\<close>, where \<open>w\<close> wraps \<open>inner\<close>.
\<close>

definition wrapper_class :: "string \<Rightarrow> Constructor" where
  "wrapper_class name =
     \<lparr>ctor_name = name,
      ctor_new = (\<lambda>args h.
        Inr (alloc (HBoxed name (case args of [] \<Rightarrow> VUndefined | x # _ \<Rightarrow> x)) h))\<rparr>"

definition wrapped_heap :: heap where
  "wrapped_heap =
     [HArray [VObject 1, VObject 2], HObject (Some ''Object'') [(''v'', VNum 1)],
      HBoxed ''W'' (VObject 1)]"

text \<open>
  The heap of \<open>[shared, box]\<close>, where \<open>box\<close> is an instance of a class \<open>Box\<close>
  whose property \<open>m\<close> is \<open>new Map([[1, shared]])\<close>, and a registry for both classes.
\<close>

definition box_heap :: heap where
  "box_heap =
     [HArray [VObject 1, VObject 2], HObject (Some ''Object'') [(''value'', VNum 1)],
      HObject (Some ''Box'') [(''m'', VObject 3)], HMap [(VNum 1, VObject 1)]]"

definition box_registry :: ConverterConfig where
  "box_registry =
     Object_assign (Converters_allProps (user_class ''Box'' [])) (Converters_fromIterable Map_class)"

definition box_item :: SerItem where
  "box_item =
     Arr [Obj [(''value'', Val (VNum 1))],
          Proto ''Box'' (Obj [(''m'', Proto ''Map'' (Arr [Arr [Val (VNum 1), Ref [''0'']]]))])]"













section \<open>Properties of the engine's combinators\<close>

lemma fold_assign_cell:
  "a < length (config_cells s) \<Longrightarrow>
   fold (\<lambda>converter. assign_cell a converter) convs s =
     s\<lparr>config_cells := (config_cells s)[a := merged (config_cells s ! a) convs]\<rparr>"
proof (induction convs arbitrary: s)
  case Nil
  then show ?case by (simp add: merged_def)
next
  case (Cons c convs)
  then show ?case by (simp add: merged_def assign_cell_def)
qed

lemma withConverters_eq:
  "withConverters e convs s =
     (\<lparr>converters = length (config_cells s), options = options e\<rparr>,
      s\<lparr>config_cells := config_cells s @ [merged (registry s e) convs]\<rparr>)"
  by (simp add: withConverters_def Let_def fold_assign_cell)

lemma same_behaviourI:
  "registry s' e = registry s e \<Longrightarrow> settings s' e = settings s e \<Longrightarrow> same_behaviour s s' e"
  unfolding same_behaviour_def
  by (intro conjI ext)
     (simp_all add: Deserted_normalize_def Deserted_denormalize_def
        Deserted_clone_def Deserted_serialize_def Deserted_deserialize_def)

lemma old_engine_config_append:
  "engine_of s e0 \<Longrightarrow>
   engine_of (s\<lparr>config_cells := config_cells s @ [c]\<rparr>) e0
   \<and> same_behaviour s (s\<lparr>config_cells := config_cells s @ [c]\<rparr>) e0"
  by (rule conjI, simp add: engine_of_def, rule same_behaviourI)
     (simp_all add: registry_def settings_def engine_of_def nth_append)

lemma old_engine_options_append:
  "engine_of s e0 \<Longrightarrow>
   engine_of (s\<lparr>options_cells := options_cells s @ [c]\<rparr>) e0
   \<and> same_behaviour s (s\<lparr>options_cells := options_cells s @ [c]\<rparr>) e0"
  by (rule conjI, simp add: engine_of_def, rule same_behaviourI)
     (simp_all add: registry_def settings_def engine_of_def nth_append)

lemma engine0_of_store0: "engine_of store0 engine0"
  by (simp add: engine_of_def store0_def engine0_def Deserted_empty_def Deserted_new_def)

lemma merged_two: "merged base [c1, c2] = (base ++ c1) ++ c2"
  by (simp add: merged_def Object_assign_def)

text \<open>
  C9. For an engine \<open>e\<close> of a store, \<open>withConverters\<close> and \<open>withOptions\<close> return an
  engine that the store did not hold before. The new engine's configuration is the
  configuration of \<open>e\<close> with the arguments assigned in turn, respectively its options are
  the options of \<open>e\<close> overwritten by the argument. Every engine of the old store, \<open>e\<close>
  among them, refers to the same configuration and options afterwards, and each of its
  methods is the same function as before.
\<close>

theorem extend_returns_new_engine:
  assumes "engine_of s e"
  shows "(case withConverters e convs s of (e', s') \<Rightarrow>
            engine_of s' e' \<and> \<not> engine_of s e'
          \<and> registry s' e' = merged (registry s e) convs
          \<and> settings s' e' = settings s e
          \<and> (\<forall>e0. engine_of s e0 \<longrightarrow> engine_of s' e0 \<and> same_behaviour s s' e0))
       \<and> (case withOptions e patch s of (e', s') \<Rightarrow>
            engine_of s' e' \<and> \<not> engine_of s e'
          \<and> registry s' e' = registry s e
          \<and> settings s' e' = spread_options (settings s e) patch
          \<and> (\<forall>e0. engine_of s e0 \<longrightarrow> engine_of s' e0 \<and> same_behaviour s s' e0))"
proof -
  have a: "case withConverters e convs s of (e', s') \<Rightarrow>
            engine_of s' e' \<and> \<not> engine_of s e'
          \<and> registry s' e' = merged (registry s e) convs
          \<and> settings s' e' = settings s e
          \<and> (\<forall>e0. engine_of s e0 \<longrightarrow> engine_of s' e0 \<and> same_behaviour s s' e0)"
    using assms
    by (simp add: withConverters_eq old_engine_config_append)
       (simp add: engine_of_def registry_def settings_def)
  have b: "case withOptions e patch s of (e', s') \<Rightarrow>
            engine_of s' e' \<and> \<not> engine_of s e'
          \<and> registry s' e' = registry s e
          \<and> settings s' e' = spread_options (settings s e) patch
          \<and> (\<forall>e0. engine_of s e0 \<longrightarrow> engine_of s' e0 \<and> same_behaviour s s' e0)"
    using assms
    by (simp add: withOptions_def old_engine_options_append)
       (simp add: engine_of_def registry_def settings_def nth_append)
  from a b show ?thesis by blast
qed

theorem extend_returns_new_engine_witness:
  "engine_of store0 engine0 \<and>
   (case withConverters engine0 [Converters_allProps (user_class ''Test'' [])] store0 of
      (e', s') \<Rightarrow> registry s' e' ''Test'' \<noteq> None \<and> registry s' engine0 ''Test'' = None
         \<and> same_behaviour store0 s' engine0)
 \<and> (case withOptions engine0
          \<lparr>patch_noRefs = Some True, patch_functionConverter = None,
           patch_symbolConverter = None, patch_stringifier = None\<rparr> store0 of
      (e', s') \<Rightarrow> noRefs (settings s' e') \<and> \<not> noRefs (settings s' engine0)
         \<and> same_behaviour store0 s' engine0)"
  using extend_returns_new_engine [OF engine0_of_store0,
      of "[Converters_allProps (user_class ''Test'' [])]"
         "\<lparr>patch_noRefs = Some True, patch_functionConverter = None,
           patch_symbolConverter = None, patch_stringifier = None\<rparr>"]
        engine0_of_store0
  apply (simp add: split_beta)
  apply (simp add: merged_def Object_assign_def Converters_allProps_def user_class_def
      spread_options_def)
  apply (simp add: registry_def settings_def store0_def engine0_def Deserted_empty_def
      Deserted_new_def defaultOptions_def withOptions_def withConverters_eq spread_options_def)
  done

text \<open>
  C10. Each converter factory binds exactly the runtime name of the constructor. When
  two configurations \<open>c1\<close> and \<open>c2\<close> are given to \<open>withConverters\<close> in this order and
  \<open>c2\<close> binds the name \<open>k\<close>, the new engine resolves \<open>k\<close> to the converter of \<open>c2\<close>,
  whatever \<open>c1\<close> and the old configuration bind; \<open>Converters.all\<close> merges the same
  way. \<open>withConverters\<close> has no failing outcome.
\<close>

theorem later_converter_replaces_earlier:
  assumes "engine_of s e" and "c2 k = Some conv"
  shows "(case withConverters e [c1, c2] s of (e', s') \<Rightarrow> registry s' e' k = Some conv)
       \<and> (\<forall>toConverter a b. toConverter b = c2 \<longrightarrow>
             Converters_all toConverter [a, b] k = Some conv)
       \<and> dom (Converters_valueOf ctor) = {ctor_name ctor}
       \<and> dom (Converters_fromIterable ctor) = {ctor_name ctor}
       \<and> dom (Converters_allProps ctor) = {ctor_name ctor}
       \<and> dom (Converters_pick ctor props) = {ctor_name ctor}"
  using assms
  by (simp add: withConverters_eq registry_def merged_two Converters_all_def Object_assign_def
      Converters_valueOf_def Converters_fromIterable_def Converters_allProps_def
      Converters_pick_def)

theorem later_converter_replaces_earlier_witness:
  "engine_of store0 engine0
 \<and> Converters_allProps class_B ''Point'' = Some (Converter_create spread_object (assign_new class_B))
 \<and> (case withConverters engine0 [Converters_allProps class_A, Converters_allProps class_B] store0 of
      (e', s') \<Rightarrow> registry s' e' ''Point'' = Some (Converter_create spread_object (assign_new class_B)))
 \<and> Converters_all Converters_allProps [class_A, class_B] ''Point''
      = Some (Converter_create spread_object (assign_new class_B))"
proof -
  have b: "Converters_allProps class_B ''Point'' = Some (Converter_create spread_object (assign_new class_B))"
    by (simp add: Converters_allProps_def class_B_def user_class_def)
  show ?thesis
    using later_converter_replaces_earlier
        [where s = store0 and e = engine0 and ?c2.0 = "Converters_allProps class_B"
           and k = "''Point''" and ?c1.0 = "Converters_allProps class_A" and ctor = class_A,
         OF engine0_of_store0 b]
        b engine0_of_store0
    by simp
qed

section \<open>The order of the deferred actions\<close>

lemma Action_compare_le: "Action_compare a b \<le> 0 \<longleftrightarrow> Action_depth b \<le> Action_depth a"
  by (simp add: Action_compare_def)

lemma mset_insort_cmp: "mset (insort_cmp cmp a xs) = add_mset a (mset xs)"
  by (induction xs) auto

lemma mset_sort_cmp: "mset (sort_cmp cmp xs) = mset xs"
  by (induction xs) (simp_all add: sort_cmp_def mset_insort_cmp)

lemma set_insort_cmp: "set (insort_cmp cmp a xs) = insert a (set xs)"
  by (induction xs) auto

lemma sorted_insort_cmp:
  "sorted_wrt (\<lambda>a1 a2. Action_depth a2 \<le> Action_depth a1) xs \<Longrightarrow>
   sorted_wrt (\<lambda>a1 a2. Action_depth a2 \<le> Action_depth a1) (insort_cmp Action_compare a xs)"
proof (induction xs)
  case Nil
  then show ?case by simp
next
  case (Cons b bs)
  show ?case
  proof (cases "Action_compare a b \<le> 0")
    case True
    then have "Action_depth b \<le> Action_depth a" by (simp add: Action_compare_le)
    with Cons.prems True show ?thesis by (auto intro: order_trans)
  next
    case False
    then have "Action_depth a \<le> Action_depth b" by (simp add: Action_compare_le)
    with Cons False show ?thesis by (auto simp: set_insort_cmp)
  qed
qed

lemma sorted_sort_cmp:
  "sorted_wrt (\<lambda>a1 a2. Action_depth a2 \<le> Action_depth a1) (sort_cmp Action_compare xs)"
  by (induction xs) (simp_all add: sort_cmp_def sorted_insort_cmp)

lemma filter_insort_cmp:
  "sorted_wrt (\<lambda>a1 a2. Action_depth a2 \<le> Action_depth a1) xs \<Longrightarrow>
   filter (\<lambda>x. Action_depth x = d) (insort_cmp Action_compare a xs) =
   filter (\<lambda>x. Action_depth x = d) (a # xs)"
proof (induction xs)
  case Nil
  then show ?case by simp
next
  case (Cons b bs)
  show ?case
  proof (cases "Action_compare a b \<le> 0")
    case True
    then show ?thesis by simp
  next
    case False
    then have lt: "Action_depth a < Action_depth b" by (simp add: Action_compare_le)
    from Cons have IH: "filter (\<lambda>x. Action_depth x = d) (insort_cmp Action_compare a bs) =
      filter (\<lambda>x. Action_depth x = d) (a # bs)" by simp
    show ?thesis
    proof (cases "Action_depth a = d")
      case True
      with lt have "Action_depth b \<noteq> d" by simp
      with False IH show ?thesis by simp
    next
      case F: False
      with False IH show ?thesis by simp
    qed
  qed
qed

lemma stable_sort_cmp:
  "filter (\<lambda>x. Action_depth x = d) (sort_cmp Action_compare xs) = filter (\<lambda>x. Action_depth x = d) xs"
proof (induction xs)
  case Nil
  then show ?case by (simp add: sort_cmp_def)
next
  case (Cons a xs)
  have "sort_cmp Action_compare (a # xs) = insort_cmp Action_compare a (sort_cmp Action_compare xs)"
    by (simp add: sort_cmp_def)
  with Cons filter_insort_cmp[OF sorted_sort_cmp, of d a xs] show ?case by simp
qed

section \<open>The text round trip\<close>

text \<open>
  C6. The claim is that \<open>deserialize(serialize(v))\<close> equals \<open>clone(v)\<close> under the JSON
  stringifier. At \<open>v = undefined\<close> the code does otherwise: the item is
  \<open>{ val: undefined }\<close>, whose JSON text is \<open>{}\<close>; \<open>deserialize\<close> of that text
  throws \<open>unknown item\<close>, while \<open>clone\<close> returns \<open>undefined\<close>.
\<close>

theorem undefined_lost_in_text_round_trip:
  "serialize (Suc n) cs defaultOptions VUndefined h = Some (Inr (JObj [], h))
 \<and> deserialize cs defaultOptions (JObj []) h = Inl UnknownItem
 \<and> clone (Suc n) cs defaultOptions VUndefined h = Some (Inr (VUndefined, h))"
  by (simp add: serialize_def deserialize_def clone_def normalize_def denormalize_def
      defaultOptions_def json_payload_def sort_cmp_def)

section \<open>Facts about the walk of normalize\<close>

lemma map_elems_rel:
  assumes step: "\<And>x p st t st'. f x p st = Some (Inr (t, st')) \<Longrightarrow> R st st'"
    and refl: "\<And>st. R st st"
    and trans: "\<And>a b c. R a b \<Longrightarrow> R b c \<Longrightarrow> R a c"
  shows "map_elems f xs i path st = Some (Inr (ts, st')) \<Longrightarrow> R st st'"
proof (induction xs arbitrary: i st ts)
  case Nil
  then show ?case by (simp add: refl)
next
  case (Cons x xs)
  then show ?case
    by (auto split: option.splits sum.splits prod.splits intro: trans step)
qed

lemma map_props_rel:
  assumes step: "\<And>x p st t st'. f x p st = Some (Inr (t, st')) \<Longrightarrow> R st st'"
    and refl: "\<And>st. R st st"
    and trans: "\<And>a b c. R a b \<Longrightarrow> R b c \<Longrightarrow> R a c"
  shows "map_props f props path st = Some (Inr (ts, st')) \<Longrightarrow> R st st'"
proof (induction props arbitrary: st ts)
  case Nil
  then show ?case by (simp add: refl)
next
  case (Cons x xs)
  then show ?case
    by (cases x) (auto split: option.splits sum.splits prod.splits if_splits intro: trans step)
qed

text \<open>The ways in which \<open>ser\<close> returns an item.\<close>

lemma ser_Suc_cases [consumes 1, case_names Fun Sym Ref Arr Obj Proto Val]:
  assumes "ser (Suc n) cs opts item path st = Some (Inr (t, st'))"
  obtains
    (Fun) f x h1 t1 where "item = VFunction f"
      "conv_from (functionConverter opts) item (snd st) = Inr (x, h1)"
      "ser n cs opts x path (fst st, h1) = Some (Inr (t1, st'))" "t = Fun t1"
  | (Sym) d g x h1 where "item = VSymbol d g"
      "conv_from (symbolConverter opts) item (snd st) = Inr (x, h1)"
      "t = Sym x" "st' = (fst st, h1)"
  | (Ref) a ref where "item = VObject a" "fst st a = Some ref" "\<not> noRefs opts"
      "t = Ref ref" "st' = st"
  | (Arr) a xs ts where "item = VObject a" "fst st a = None" "cell (snd st) a = Some (HArray xs)"
      "map_elems (ser n cs opts) xs 0 path ((fst st)(a \<mapsto> path), snd st) = Some (Inr (ts, st'))"
      "t = Arr ts"
  | (Obj) a ob props obj where "item = VObject a" "fst st a = None" "cell (snd st) a = Some ob"
      "\<forall>xs. ob \<noteq> HArray xs" "constructor_name ob = Inr (Some ''Object'')"
      "own_props item (snd st) = Inr props"
      "map_props (ser n cs opts) props path ((fst st)(a \<mapsto> path), snd st) = Some (Inr (obj, st'))"
      "t = Obj obj"
  | (Proto) a ob name converter x h1 t1 where "item = VObject a" "fst st a = None"
      "cell (snd st) a = Some ob" "\<forall>xs. ob \<noteq> HArray xs" "constructor_name ob = Inr (Some name)"
      "name \<noteq> ''Object''" "converter_of cs name = Some converter"
      "conv_from converter item (snd st) = Inr (x, h1)"
      "ser n cs opts x path ((fst st)(a \<mapsto> path), h1) = Some (Inr (t1, st'))"
      "t = Proto name t1"
  | (Val) "primitive item" "t = Val item" "st' = st"
proof (cases item)
  case (VObject a)
  show ?thesis
  proof (cases "fst st a")
    case (Some ref)
    with VObject assms have "\<not> noRefs opts" "t = Ref ref" "st' = st"
      by (auto split: if_splits)
    with VObject Some show ?thesis by (rule Ref)
  next
    case None
    show ?thesis
    proof (cases "cell (snd st) a")
      case N: None
      with VObject None assms show ?thesis by simp
    next
      case (Some ob)
      show ?thesis
      proof (cases "\<exists>xs. ob = HArray xs")
        case True
        then obtain xs where ob: "ob = HArray xs" by blast
        with VObject None Some assms obtain ts where
          "map_elems (ser n cs opts) xs 0 path ((fst st)(a \<mapsto> path), snd st) = Some (Inr (ts, st'))"
          "t = Arr ts"
          by (auto split: option.splits sum.splits prod.splits)
        with VObject None Some ob show ?thesis by (intro Arr[of a xs ts]) simp_all
      next
        case False
        then have na: "\<forall>xs. ob \<noteq> HArray xs" by blast
        from VObject None Some assms na
        have eq: "(case constructor_name ob of
                       Inl e \<Rightarrow> Some (Inl e)
                     | Inr name \<Rightarrow>
                         (if name = Some ''Object'' then
                            (case own_props (VObject a) (snd st) of
                               Inl e \<Rightarrow> Some (Inl e)
                             | Inr props \<Rightarrow>
                                 (case map_props (ser n cs opts) props path
                                         ((fst st)(a \<mapsto> path), snd st) of
                                    None \<Rightarrow> None
                                  | Some (Inl e) \<Rightarrow> Some (Inl e)
                                  | Some (Inr (obj, st')) \<Rightarrow> Some (Inr (Obj obj, st'))))
                          else
                            (case converter_of cs (case name of None \<Rightarrow> ''undefined'' | Some s \<Rightarrow> s) of
                               None \<Rightarrow> Some (Inl UnregisteredClass)
                             | Some converter \<Rightarrow>
                                 (case name of
                                    None \<Rightarrow> Some (Inl Unmodelled)
                                  | Some proto \<Rightarrow>
                                      (case conv_from converter (VObject a) (snd st) of
                                         Inl e \<Rightarrow> Some (Inl e)
                                       | Inr (x, h') \<Rightarrow>
                                           (case ser n cs opts x path ((fst st)(a \<mapsto> path), h') of
                                              None \<Rightarrow> None
                                            | Some (Inl e) \<Rightarrow> Some (Inl e)
                                            | Some (Inr (t, st')) \<Rightarrow>
                                                Some (Inr (Proto proto t, st'))))))))
                  = Some (Inr (t, st'))"
          by (cases ob) (simp_all split del: if_split)
        then obtain oname where oname: "constructor_name ob = Inr oname"
          by (auto split: sum.splits)
        from eq oname obtain name where "oname = Some name"
          by (cases oname) (auto split: option.splits if_splits)
        with oname have name: "constructor_name ob = Inr (Some name)" by simp
        show ?thesis
        proof (cases "name = ''Object''")
          case True
          with eq name obtain props obj where
            "own_props (VObject a) (snd st) = Inr props"
            "map_props (ser n cs opts) props path ((fst st)(a \<mapsto> path), snd st) = Some (Inr (obj, st'))"
            "t = Obj obj"
            by (auto split: option.splits sum.splits prod.splits)
          with True name VObject None Some na show ?thesis
            by (intro Obj[of a ob props obj]) simp_all
        next
          case F: False
          with eq name obtain converter x h1 t1 where
            "converter_of cs name = Some converter" "conv_from converter (VObject a) (snd st) = Inr (x, h1)"
            "ser n cs opts x path ((fst st)(a \<mapsto> path), h1) = Some (Inr (t1, st'))"
            "t = Proto name t1"
            by (auto split: option.splits sum.splits prod.splits)
          with F name VObject None Some na show ?thesis
            by (intro Proto[of a ob name converter x h1 t1]) simp_all
        qed
      qed
    qed
  qed
next
  case (VFunction f)
  with assms obtain x h1 t1 where
    "conv_from (functionConverter opts) item (snd st) = Inr (x, h1)"
    "ser n cs opts x path (fst st, h1) = Some (Inr (t1, st'))" "t = Fun t1"
    by (auto split: option.splits sum.splits prod.splits)
  with VFunction show ?thesis by (intro Fun[of f x h1 t1]) simp_all
next
  case (VSymbol d g)
  with assms obtain x h1 where
    "conv_from (symbolConverter opts) item (snd st) = Inr (x, h1)" "t = Sym x" "st' = (fst st, h1)"
    by (auto split: option.splits sum.splits prod.splits)
  with VSymbol show ?thesis by (intro Sym[of d g x h1]) simp_all
next
  case VUndefined
  with assms have "t = Val item" "st' = st" by simp_all
  with VUndefined show ?thesis by (intro Val) simp_all
next
  case VNull
  with assms have "t = Val item" "st' = st" by simp_all
  with VNull show ?thesis by (intro Val) simp_all
next
  case (VBool b)
  with assms have "t = Val item" "st' = st" by simp_all
  with VBool show ?thesis by (intro Val) simp_all
next
  case (VNum i)
  with assms have "t = Val item" "st' = st" by simp_all
  with VNum show ?thesis by (intro Val) simp_all
next
  case (VStr x)
  with assms have "t = Val item" "st' = st" by simp_all
  with VStr show ?thesis by (intro Val) simp_all
qed

lemma map_le_upd_None:
  assumes "d(a \<mapsto> p) \<subseteq>\<^sub>m d'" and "d a = None"
  shows "d \<subseteq>\<^sub>m d'"
  unfolding map_le_def
proof
  fix x assume x: "x \<in> dom d"
  with assms(2) have ne: "x \<noteq> a" by auto
  from assms(1) have "\<forall>x\<in>dom (d(a \<mapsto> p)). (d(a \<mapsto> p)) x = d' x"
    by (simp only: map_le_def)
  moreover from x have "x \<in> dom (d(a \<mapsto> p))" by simp
  ultimately have "(d(a \<mapsto> p)) x = d' x" by blast
  with ne show "d x = d' x" by simp
qed

lemma map_le_upd_Some:
  assumes "d(a \<mapsto> p) \<subseteq>\<^sub>m d'"
  shows "d' a = Some p"
proof -
  from assms have "\<forall>x\<in>dom (d(a \<mapsto> p)). (d(a \<mapsto> p)) x = d' x"
    by (simp only: map_le_def)
  moreover have "a \<in> dom (d(a \<mapsto> p))" by simp
  ultimately have "(d(a \<mapsto> p)) a = d' a" by blast
  then show ?thesis by simp
qed

lemma map_elems_dict_mono:
  assumes "\<And>x p st t st'. f x p st = Some (Inr (t, st')) \<Longrightarrow> fst st \<subseteq>\<^sub>m fst st'"
  shows "map_elems f xs i path st = Some (Inr (ts, st')) \<Longrightarrow> fst st \<subseteq>\<^sub>m fst st'"
proof (rule map_elems_rel[where R = "\<lambda>s s'. fst s \<subseteq>\<^sub>m fst s'" and f = f])
  show "\<And>x p st t st'. f x p st = Some (Inr (t, st')) \<Longrightarrow> fst st \<subseteq>\<^sub>m fst st'"
    by (rule assms)
  show "\<And>st :: dict \<times> heap. fst st \<subseteq>\<^sub>m fst st" by (rule map_le_refl)
  show "\<And>a b c :: dict \<times> heap. fst a \<subseteq>\<^sub>m fst b \<Longrightarrow> fst b \<subseteq>\<^sub>m fst c \<Longrightarrow> fst a \<subseteq>\<^sub>m fst c"
    by (rule map_le_trans)
qed

lemma map_props_dict_mono:
  assumes "\<And>x p st t st'. f x p st = Some (Inr (t, st')) \<Longrightarrow> fst st \<subseteq>\<^sub>m fst st'"
  shows "map_props f props path st = Some (Inr (ts, st')) \<Longrightarrow> fst st \<subseteq>\<^sub>m fst st'"
proof (rule map_props_rel[where R = "\<lambda>s s'. fst s \<subseteq>\<^sub>m fst s'" and f = f])
  show "\<And>x p st t st'. f x p st = Some (Inr (t, st')) \<Longrightarrow> fst st \<subseteq>\<^sub>m fst st'"
    by (rule assms)
  show "\<And>st :: dict \<times> heap. fst st \<subseteq>\<^sub>m fst st" by (rule map_le_refl)
  show "\<And>a b c :: dict \<times> heap. fst a \<subseteq>\<^sub>m fst b \<Longrightarrow> fst b \<subseteq>\<^sub>m fst c \<Longrightarrow> fst a \<subseteq>\<^sub>m fst c"
    by (rule map_le_trans)
qed

text \<open>The dictionary only grows, and an entry is never changed.\<close>

lemma ser_dict_mono:
  "ser n cs opts item path st = Some (Inr (t, st')) \<Longrightarrow> fst st \<subseteq>\<^sub>m fst st'"
proof (induction n arbitrary: item path st t st')
  case 0
  then show ?case by simp
next
  case (Suc n)
  note upd = map_le_upd_None
  from Suc.prems show ?case
  proof (cases rule: ser_Suc_cases)
    case (Fun f x h1 t1)
    with Suc.IH[of x path "(fst st, h1)" t1 st'] show ?thesis by simp
  next
    case (Arr a xs ts)
    have "fst ((fst st)(a \<mapsto> path), snd st) \<subseteq>\<^sub>m fst st'"
      by (rule map_elems_dict_mono[OF Suc.IH Arr(4)])
    then have le: "(fst st)(a \<mapsto> path) \<subseteq>\<^sub>m fst st'" by simp
    from le Arr(2) show ?thesis by (rule map_le_upd_None)
  next
    case (Obj a ob props obj)
    have "fst ((fst st)(a \<mapsto> path), snd st) \<subseteq>\<^sub>m fst st'"
      by (rule map_props_dict_mono[OF Suc.IH Obj(7)])
    then have le: "(fst st)(a \<mapsto> path) \<subseteq>\<^sub>m fst st'" by simp
    from le Obj(2) show ?thesis by (rule map_le_upd_None)
  next
    case (Proto a ob name converter x h1 t1)
    from Suc.IH[OF Proto(9)] have le: "(fst st)(a \<mapsto> path) \<subseteq>\<^sub>m fst st'"
      by (simp only: fst_conv)
    from le Proto(2) show ?thesis by (rule map_le_upd_None)
  qed simp_all
qed

text \<open>A composite that was not visited before is recorded at the path of the call.\<close>

lemma ser_records_path:
  assumes "ser n cs opts (VObject a) path st = Some (Inr (t, st'))" and "fst st a = None"
  shows "fst st' a = Some path"
proof (cases n)
  case 0
  with assms show ?thesis by simp
next
  case (Suc m)
  note le = map_le_upd_Some
  from assms(1)[unfolded Suc] show ?thesis
  proof (cases rule: ser_Suc_cases)
    case (Ref a' ref)
    with assms(2) show ?thesis by simp
  next
    case (Arr a' xs ts)
    have "fst ((fst st)(a' \<mapsto> path), snd st) \<subseteq>\<^sub>m fst st'"
      by (rule map_elems_dict_mono[OF ser_dict_mono Arr(4)])
    then have "(fst st)(a' \<mapsto> path) \<subseteq>\<^sub>m fst st'" by simp
    with Arr(1) show ?thesis by (auto dest: map_le_upd_Some)
  next
    case (Obj a' ob props obj)
    have "fst ((fst st)(a' \<mapsto> path), snd st) \<subseteq>\<^sub>m fst st'"
      by (rule map_props_dict_mono[OF ser_dict_mono Obj(7)])
    then have "(fst st)(a' \<mapsto> path) \<subseteq>\<^sub>m fst st'" by simp
    with Obj(1) show ?thesis by (auto dest: map_le_upd_Some)
  next
    case (Proto a' ob name converter x h1 t1)
    from ser_dict_mono[OF Proto(9)] have "(fst st)(a' \<mapsto> path) \<subseteq>\<^sub>m fst st'" by simp
    with Proto(1) show ?thesis by (auto dest: map_le_upd_Some)
  qed simp_all
qed

text \<open>\<open>ser\<close> by the kind of its argument.\<close>

lemma ser_primitive:
  "primitive item \<Longrightarrow> ser (Suc n) cs opts item path st = Some (Inr (Val item, st))"
  by (cases item) simp_all

lemma ser_function:
  "ser (Suc n) cs opts (VFunction f) path st =
     (case conv_from (functionConverter opts) (VFunction f) (snd st) of
        Inl e \<Rightarrow> Some (Inl e)
      | Inr (x, h') \<Rightarrow>
          (case ser n cs opts x path (fst st, h') of
             None \<Rightarrow> None
           | Some (Inl e) \<Rightarrow> Some (Inl e)
           | Some (Inr (t, st')) \<Rightarrow> Some (Inr (Fun t, st'))))"
  by simp

lemma ser_symbol:
  "ser (Suc n) cs opts (VSymbol d g) path st =
     (case conv_from (symbolConverter opts) (VSymbol d g) (snd st) of
        Inl e \<Rightarrow> Some (Inl e)
      | Inr (x, h') \<Rightarrow> Some (Inr (Sym x, fst st, h')))"
  by simp

lemma ser_visited:
  "fst st a = Some ref \<Longrightarrow>
   ser (Suc n) cs opts (VObject a) path st =
     (if noRefs opts then Some (Inl ReferenceFound) else Some (Inr (Ref ref, st)))"
  by simp

lemma ser_array:
  "fst st a = None \<Longrightarrow> cell (snd st) a = Some (HArray xs) \<Longrightarrow>
   ser (Suc n) cs opts (VObject a) path st =
     (case map_elems (ser n cs opts) xs 0 path ((fst st)(a \<mapsto> path), snd st) of
        None \<Rightarrow> None
      | Some (Inl e) \<Rightarrow> Some (Inl e)
      | Some (Inr (ts, st')) \<Rightarrow> Some (Inr (Arr ts, st')))"
  by simp


lemma ser_name_undefined:
  "fst st a = None \<Longrightarrow> cell (snd st) a = Some ob \<Longrightarrow> \<forall>xs. ob \<noteq> HArray xs \<Longrightarrow>
   constructor_name ob = Inr None \<Longrightarrow>
   ser (Suc n) cs opts (VObject a) path st =
     (case converter_of cs ''undefined'' of
        None \<Rightarrow> Some (Inl UnregisteredClass)
      | Some converter \<Rightarrow> Some (Inl Unmodelled))"
  by (cases ob) (simp_all split: option.split)

lemma ser_plain_object:
  "fst st a = None \<Longrightarrow> cell (snd st) a = Some ob \<Longrightarrow> \<forall>xs. ob \<noteq> HArray xs \<Longrightarrow>
   constructor_name ob = Inr (Some ''Object'') \<Longrightarrow>
   ser (Suc n) cs opts (VObject a) path st =
     (case own_props (VObject a) (snd st) of
        Inl e \<Rightarrow> Some (Inl e)
      | Inr props \<Rightarrow>
          (case map_props (ser n cs opts) props path ((fst st)(a \<mapsto> path), snd st) of
             None \<Rightarrow> None
           | Some (Inl e) \<Rightarrow> Some (Inl e)
           | Some (Inr (obj, st')) \<Rightarrow> Some (Inr (Obj obj, st'))))"
  by (cases ob) simp_all

lemma ser_instance:
  "fst st a = None \<Longrightarrow> cell (snd st) a = Some ob \<Longrightarrow> \<forall>xs. ob \<noteq> HArray xs \<Longrightarrow>
   constructor_name ob = Inr (Some name) \<Longrightarrow> name \<noteq> ''Object'' \<Longrightarrow>
   ser (Suc n) cs opts (VObject a) path st =
     (case converter_of cs name of
        None \<Rightarrow> Some (Inl UnregisteredClass)
      | Some converter \<Rightarrow>
          (case conv_from converter (VObject a) (snd st) of
             Inl e \<Rightarrow> Some (Inl e)
           | Inr (x, h') \<Rightarrow>
               (case ser n cs opts x path ((fst st)(a \<mapsto> path), h') of
                  None \<Rightarrow> None
                | Some (Inl e) \<Rightarrow> Some (Inl e)
                | Some (Inr (t, st')) \<Rightarrow> Some (Inr (Proto name t, st')))))"
  by (cases ob) (simp_all split: option.split)


declare ser.simps(2) [simp del]

lemma map_elems_noRefs:
  assumes "\<And>x p st t st'. f x p st = Some (Inr (t, st')) \<Longrightarrow>
     g x p st = (if has_ref t then Some (Inl ReferenceFound) else Some (Inr (t, st')))"
  shows "map_elems f xs i path st = Some (Inr (ts, st')) \<Longrightarrow>
     map_elems g xs i path st =
       (if has_ref_list ts then Some (Inl ReferenceFound) else Some (Inr (ts, st')))"
proof (induction xs arbitrary: i st ts)
  case Nil
  then show ?case by simp
next
  case (Cons x xs)
  from Cons.prems obtain t st1 ts1 where
    f: "f x (path @ [String_index i]) st = Some (Inr (t, st1))"
    and r: "map_elems f xs (Suc i) path st1 = Some (Inr (ts1, st'))" and ts: "ts = t # ts1"
    by (auto split: option.splits sum.splits prod.splits)
  from assms[OF f] Cons.IH[OF r] ts show ?case by simp
qed

lemma map_props_noRefs:
  assumes "\<And>x p st t st'. f x p st = Some (Inr (t, st')) \<Longrightarrow>
     g x p st = (if has_ref t then Some (Inl ReferenceFound) else Some (Inr (t, st')))"
  shows "map_props f props path st = Some (Inr (ts, st')) \<Longrightarrow>
     map_props g props path st =
       (if has_ref_props ts then Some (Inl ReferenceFound) else Some (Inr (ts, st')))"
proof (induction props arbitrary: st ts)
  case Nil
  then show ?case by simp
next
  case (Cons kx props)
  obtain k x where kx: "kx = (k, x)" by (cases kx)
  from Cons.prems kx obtain t st1 ts1 where
    f: "f x (path @ [k]) st = Some (Inr (t, st1))"
    and r: "map_props f props path st1 = Some (Inr (ts1, st'))" and ts: "ts = (k, t) # ts1"
    and k: "k \<noteq> ''__proto__''"
    by (auto split: option.splits sum.splits prod.splits if_splits)
  from assms[OF f] Cons.IH[OF r] ts kx k show ?case by simp
qed

lemma ser_noRefs:
  "ser n cs (opts\<lparr>noRefs := False\<rparr>) item path st = Some (Inr (t, st')) \<Longrightarrow>
   ser n cs (opts\<lparr>noRefs := True\<rparr>) item path st =
     (if has_ref t then Some (Inl ReferenceFound) else Some (Inr (t, st')))"
proof (induction n arbitrary: item path st t st')
  case 0
  then show ?case by simp
next
  case (Suc n)
  from Suc.prems show ?case
  proof (cases rule: ser_Suc_cases)
    case (Fun f x h1 t1)
    with Suc.IH[OF Fun(3)] show ?thesis by (simp add: ser_function)
  next
    case (Sym d g x h1)
    then show ?thesis by (simp add: ser_symbol)
  next
    case (Ref a ref)
    then show ?thesis by (simp add: ser_visited)
  next
    case (Arr a xs ts)
    from map_elems_noRefs[where f = "ser n cs (opts\<lparr>noRefs := False\<rparr>)"
        and g = "ser n cs (opts\<lparr>noRefs := True\<rparr>)", OF Suc.IH Arr(4)] Arr
    show ?thesis by (simp add: ser_array)
  next
    case (Obj a ob props obj)
    from map_props_noRefs[where f = "ser n cs (opts\<lparr>noRefs := False\<rparr>)"
        and g = "ser n cs (opts\<lparr>noRefs := True\<rparr>)", OF Suc.IH Obj(7)] Obj
    show ?thesis by (simp add: ser_plain_object)
  next
    case (Proto a ob name converter x h1 t1)
    with Suc.IH[OF Proto(9)] show ?thesis by (simp add: ser_instance)
  next
    case Val
    then show ?thesis by (simp add: ser_primitive)
  qed
qed

section \<open>Examples of the walk\<close>

lemmas eval_simps = ser.simps alloc_def cell_def own_props_def spread_object_def
  Converter_create_def user_class_def Converters_allProps_def defaultOptions_def
  DefaultFunctionConverter_def DefaultSymbolConverter_def normalize_def
  numeral_2_eq_2 numeral_3_eq_3 constructor_name_def converter_of_def

lemma node_run:
  "ser (Suc 2) node_registry defaultOptions (VObject 0) [] (Map.empty, node_heap)
     = Some (Inr (Proto ''Node'' (Obj [(''v'', Val (VNum 1))]), [0 \<mapsto> [], 1 \<mapsto> []],
                  node_heap @ [HObject (Some ''Object'') [(''v'', VNum 1)]]))"
  by (simp add: eval_simps node_registry_def Node_class_def node_heap_def)

section \<open>The state of an instance\<close>

text \<open>
  C7, amended. When \<open>ser\<close> meets an instance of a custom type that it has not visited
  and finds its converter, the state that the converter extracts is normalized at the
  path of the instance, and the instance is recorded at that path. If the state is an
  object or an array that the walk has not visited, it is recorded at that same path: the
  canonical paths of the instance and of its state coincide. If the state was visited
  before, it keeps the path of its first visit and the state subtree is the reference to
  that path. A later encounter of any value recorded at the path of the instance returns
  the reference to that path.
\<close>

theorem state_normalized_at_path_of_instance:
  assumes unvisited: "d a = None"
    and inst: "cell h a = Some ob" "\<forall>xs. ob \<noteq> HArray xs"
      "constructor_name ob = Inr (Some name)" "name \<noteq> ''Object''"
    and conv: "converter_of cs name = Some converter"
      "conv_from converter (VObject a) h = Inr (x, h1)"
    and ok: "ser (Suc n) cs opts (VObject a) path (d, h) = Some (Inr (t, d', h'))"
  shows "\<exists>t1. t = Proto name t1
           \<and> ser n cs opts x path (d(a \<mapsto> path), h1) = Some (Inr (t1, d', h'))
           \<and> d' a = Some path
           \<and> (\<forall>s. x = VObject s \<longrightarrow>
                 (case (d(a \<mapsto> path)) s of
                    None \<Rightarrow> d' s = Some path
                  | Some r \<Rightarrow> d' s = Some r \<and> t1 = Ref r))
           \<and> (\<forall>s m p2 h2. d' s = Some path \<longrightarrow>
                 ser (Suc m) cs (opts\<lparr>noRefs := False\<rparr>) (VObject s) p2 (d', h2)
                   = Some (Inr (Ref path, d', h2)))"
proof -
  from ok show ?thesis
  proof (cases rule: ser_Suc_cases)
    case (Proto a' ob' name' converter' x' h1' t1)
    with inst conv have eqs: "a' = a" "name' = name" "x' = x" "h1' = h1" by auto
    with Proto have run: "ser n cs opts x path (d(a \<mapsto> path), h1) = Some (Inr (t1, d', h'))"
      and t: "t = Proto name t1" by auto
    from ser_dict_mono[OF run] have "d(a \<mapsto> path) \<subseteq>\<^sub>m d'" by (simp only: fst_conv)
    then have a: "d' a = Some path" by (rule map_le_upd_Some)
    have st: "\<forall>s. x = VObject s \<longrightarrow>
                 (case (d(a \<mapsto> path)) s of
                    None \<Rightarrow> d' s = Some path
                  | Some r \<Rightarrow> d' s = Some r \<and> t1 = Ref r)"
    proof (intro allI impI)
      fix s assume x: "x = VObject s"
      show "case (d(a \<mapsto> path)) s of
              None \<Rightarrow> d' s = Some path
            | Some r \<Rightarrow> d' s = Some r \<and> t1 = Ref r"
      proof (cases "(d(a \<mapsto> path)) s")
        case None
        then have "fst (d(a \<mapsto> path), h1) s = None" by simp
        from ser_records_path[OF run[unfolded x] this] None show ?thesis by simp
      next
        case (Some r)
        from run x obtain k where k: "n = Suc k" by (cases n) auto
        from Some have "fst (d(a \<mapsto> path), h1) s = Some r" by simp
        from ser_visited[OF this, of k cs opts path] run x k
        have "t1 = Ref r" "d' = d(a \<mapsto> path)" by (auto split: if_splits)
        with Some show ?thesis by simp
      qed
    qed
    from t run a st show ?thesis by (simp add: ser_visited)
  qed (use unvisited inst in auto)
qed

theorem state_normalized_at_path_of_instance_witness:
  "ser (Suc 2) node_registry defaultOptions (VObject 0) [] (Map.empty, node_heap)
     = Some (Inr (Proto ''Node'' (Obj [(''v'', Val (VNum 1))]), [0 \<mapsto> [], 1 \<mapsto> []],
                  node_heap @ [HObject (Some ''Object'') [(''v'', VNum 1)]]))
 \<and> (\<exists>t1. Proto ''Node'' (Obj [(''v'', Val (VNum 1))]) = Proto ''Node'' t1
        \<and> [0 \<mapsto> [], 1 \<mapsto> ([]::Path)] 0 = Some [] \<and> [0 \<mapsto> [], 1 \<mapsto> ([]::Path)] 1 = Some []
        \<and> ser (Suc 0) node_registry (defaultOptions\<lparr>noRefs := False\<rparr>) (VObject 1) [''x'']
              ([0 \<mapsto> [], 1 \<mapsto> []], node_heap) = Some (Inr (Ref [], [0 \<mapsto> [], 1 \<mapsto> []], node_heap)))"
proof -
  have conv: "converter_of node_registry ''Node''
      = Some (Converter_create spread_object (assign_new Node_class))"
    by (simp add: node_registry_def Converters_allProps_def Node_class_def user_class_def
        converter_of_def)
  have fr: "conv_from (Converter_create spread_object (assign_new Node_class)) (VObject 0) node_heap
      = Inr (VObject 1, node_heap @ [HObject (Some ''Object'') [(''v'', VNum 1)]])"
    by (simp add: eval_simps node_heap_def)
  have c: "cell node_heap 0 = Some (HObject (Some ''Node'') [(''v'', VNum 1)])"
    by (simp add: cell_def node_heap_def)
  have nm: "constructor_name (HObject (Some ''Node'') [(''v'', VNum 1)]) = Inr (Some ''Node'')"
    by (simp add: constructor_name_def)
  from state_normalized_at_path_of_instance
    [where d = Map.empty and a = 0 and h = node_heap
       and ob = "HObject (Some ''Node'') [(''v'', VNum 1)]" and name = "''Node''"
       and cs = node_registry and opts = defaultOptions and n = 2 and path = "[]",
     OF _ c _ nm _ conv fr node_run]
  have "\<exists>t1. Proto ''Node'' (Obj [(''v'', Val (VNum 1))]) = Proto ''Node'' t1
     \<and> [0 \<mapsto> [], 1 \<mapsto> ([]::Path)] 0 = Some []
     \<and> (\<forall>s. VObject (1::nat) = VObject s \<longrightarrow>
           (case ([0 \<mapsto> ([]::Path)]) s of
              None \<Rightarrow> [0 \<mapsto> [], 1 \<mapsto> ([]::Path)] s = Some []
            | Some r \<Rightarrow> [0 \<mapsto> [], 1 \<mapsto> ([]::Path)] s = Some r \<and> t1 = Ref r))
     \<and> (\<forall>s m p2 h2. [0 \<mapsto> [], 1 \<mapsto> ([]::Path)] s = Some [] \<longrightarrow>
           ser (Suc m) node_registry (defaultOptions\<lparr>noRefs := False\<rparr>) (VObject s) p2
             ([0 \<mapsto> [], 1 \<mapsto> []], h2) = Some (Inr (Ref [], [0 \<mapsto> [], 1 \<mapsto> []], h2)))"
    by (simp add: node_heap_def)
  then obtain t1 where
    1: "Proto ''Node'' (Obj [(''v'', Val (VNum 1))]) = Proto ''Node'' t1"
    and 2: "\<forall>s m p2 h2. [0 \<mapsto> [], 1 \<mapsto> ([]::Path)] s = Some [] \<longrightarrow>
           ser (Suc m) node_registry (defaultOptions\<lparr>noRefs := False\<rparr>) (VObject s) p2
             ([0 \<mapsto> [], 1 \<mapsto> []], h2) = Some (Inr (Ref [], [0 \<mapsto> [], 1 \<mapsto> []], h2))"
    by blast
  from 2[rule_format, of 1 0 "[''x'']" node_heap]
  have "ser (Suc 0) node_registry (defaultOptions\<lparr>noRefs := False\<rparr>) (VObject 1) [''x'']
              ([0 \<mapsto> [], 1 \<mapsto> []], node_heap) = Some (Inr (Ref [], [0 \<mapsto> [], 1 \<mapsto> []], node_heap))"
    by simp
  with node_run show ?thesis by simp
qed

text \<open>
  The claim as stated fails when the state was visited before. In \<open>[inner, w]\<close>, where
  the converter of \<open>w\<close> extracts \<open>inner\<close>, the instance is recorded at \<open>['1']\<close> and
  its state at \<open>['0']\<close>; \<open>clone\<close> then overwrites the rebuilt instance with the copy
  of \<open>inner\<close>.
\<close>

theorem state_visited_before_keeps_its_path:
  "(case ser 3 (Converters_valueOf (wrapper_class ''W'')) defaultOptions (VObject 0) []
           (Map.empty, wrapped_heap) of
      Some (Inr (t, d, h)) \<Rightarrow>
        t = Arr [Obj [(''v'', Val (VNum 1))], Proto ''W'' (Ref [''0''])]
        \<and> d 2 = Some [''1''] \<and> d 1 = Some [''0'']
    | _ \<Rightarrow> False)
 \<and> clone 3 (Converters_valueOf (wrapper_class ''W'')) defaultOptions (VObject 0) wrapped_heap =
     Some (Inr (VObject 4,
       wrapped_heap @
       [HObject (Some ''Object'') [(''v'', VNum 1)], HArray [VObject 3, VObject 3],
        HBoxed ''W'' VNull]))"
  by code_simp

section \<open>The order of the fixups\<close>

text \<open>
  C8. The depths are as the claim says and the actions are applied deepest first (the
  sort is stable, see \<open>sorted_sort_cmp\<close> and \<open>stable_sort_cmp\<close>), but the order does
  not give what the claim promises. The depth of a reference is the length of its source
  path, not of the place it fills. In \<open>[shared, box]\<close>, where \<open>box.m\<close> is
  \<open>new Map([[1, shared]])\<close>, the reference inside the map has depth 1 and is sorted
  after the conversions of the map (depth 2) and of the box (depth 1): the map is built
  from the entry \<open>[1, null]\<close>, the box embeds that map, and the reference fixup then
  looks for the entry inside the map, finds \<open>undefined\<close> and throws.
\<close>

theorem instance_embedded_before_its_reference_is_resolved:
  "normalize 7 box_registry defaultOptions (VObject 0) box_heap =
     Some (Inr (box_item,
       box_heap @
       [HObject (Some ''Object'') [(''m'', VObject 3)], HArray [VNum 1, VObject 1],
        HArray [VObject 5]]))
 \<and> (case des defaultOptions box_item [] ([], []) of
      Inr (result, actions, h) \<Rightarrow>
        actions =
          [ConvertAction ''Box'' [''1''], ConvertAction ''Map'' [''1'', ''m''],
           CopyAction [''1'', ''m'', ''0'', ''1''] [''0'']]
        \<and> sort_cmp Action_compare actions =
          [ConvertAction ''Map'' [''1'', ''m''], ConvertAction ''Box'' [''1''],
           CopyAction [''1'', ''m'', ''0'', ''1''] [''0'']]
        \<and> apply_actions box_registry
              [ConvertAction ''Map'' [''1'', ''m''], ConvertAction ''Box'' [''1'']] result h =
            Inr (VObject 4,
              [HObject (Some ''Object'') [(''value'', VNum 1)], HArray [VNum 1, VNull],
               HArray [VObject 1], HObject (Some ''Object'') [(''m'', VObject 5)],
               HArray [VObject 0, VObject 6], HMap [(VNum 1, VNull)],
               HObject (Some ''Box'') [(''m'', VObject 5)]])
        \<and> apply_actions box_registry (sort_cmp Action_compare actions) result h = Inl TypeError
    | Inl e \<Rightarrow> False)
 \<and> clone 7 box_registry defaultOptions (VObject 0) box_heap = Some (Inl TypeError)"
  by code_simp

section \<open>The option noRefs\<close>

lemma normalize_noRefs:
  assumes "normalize n cs (opts\<lparr>noRefs := False\<rparr>) input h = Some (Inr (t, h'))"
  shows "normalize n cs (opts\<lparr>noRefs := True\<rparr>) input h =
     (if has_ref t then Some (Inl ReferenceFound) else Some (Inr (t, h')))"
proof -
  from assms obtain d' where
    "ser n cs (opts\<lparr>noRefs := False\<rparr>) input [] (Map.empty, h) = Some (Inr (t, d', h'))"
    by (auto simp: normalize_def split: option.splits sum.splits prod.splits)
  from ser_noRefs[OF this] show ?thesis by (simp add: normalize_def)
qed

text \<open>
  C4, amended. When \<open>ser\<close> meets an object or an array that is in the dictionary, it
  throws the reference error if \<open>noRefs\<close> is set and returns a reference to the
  recorded path otherwise; the recorded path is the path of the first visit. Hence, for
  every input that \<open>normalize\<close> turns into an item with the default \<open>noRefs = false\<close>,
  \<open>normalize\<close> with \<open>noRefs = true\<close> throws the reference error if the item holds a
  reference, and returns the same item if it holds none. Functions are not entered in
  the dictionary: a function that occurs twice raises no error.
\<close>

theorem noRefs_rejects_revisited_composite:
  "(fst st a = Some ref \<longrightarrow>
      ser (Suc n) cs opts (VObject a) path st =
        (if noRefs opts then Some (Inl ReferenceFound) else Some (Inr (Ref ref, st))))
 \<and> (fst st a = None \<and> ser n cs opts (VObject a) path st = Some (Inr (t0, st')) \<longrightarrow>
      fst st' a = Some path)
 \<and> (normalize n cs (opts\<lparr>noRefs := False\<rparr>) input h = Some (Inr (t, h')) \<longrightarrow>
      normalize n cs (opts\<lparr>noRefs := True\<rparr>) input h =
        (if has_ref t then Some (Inl ReferenceFound) else Some (Inr (t, h'))))"
proof (intro conjI impI)
  assume "fst st a = Some ref"
  then show "ser (Suc n) cs opts (VObject a) path st =
        (if noRefs opts then Some (Inl ReferenceFound) else Some (Inr (Ref ref, st)))"
    by (rule ser_visited)
next
  assume "fst st a = None \<and> ser n cs opts (VObject a) path st = Some (Inr (t0, st'))"
  then show "fst st' a = Some path" using ser_records_path by blast
next
  assume "normalize n cs (opts\<lparr>noRefs := False\<rparr>) input h = Some (Inr (t, h'))"
  then show "normalize n cs (opts\<lparr>noRefs := True\<rparr>) input h =
        (if has_ref t then Some (Inl ReferenceFound) else Some (Inr (t, h')))"
    by (rule normalize_noRefs)
qed

lemma shared_run:
  "normalize 3 Map.empty (defaultOptions\<lparr>noRefs := False\<rparr>) (VObject 0) shared_heap
     = Some (Inr (Arr [Obj [(''value'', Val (VNum 1))], Ref [''0'']], shared_heap))"
  by (simp add: eval_simps shared_heap_def String_index.simps digit_def)

theorem noRefs_rejects_revisited_composite_witness:
  "normalize 3 Map.empty (defaultOptions\<lparr>noRefs := False\<rparr>) (VObject 0) shared_heap
     = Some (Inr (Arr [Obj [(''value'', Val (VNum 1))], Ref [''0'']], shared_heap))
 \<and> normalize 3 Map.empty (defaultOptions\<lparr>noRefs := True\<rparr>) (VObject 0) shared_heap
     = Some (Inl ReferenceFound)"
  using noRefs_rejects_revisited_composite
    [where n = 3 and cs = Map.empty and opts = defaultOptions and input = "VObject 0"
       and h = shared_heap and h' = shared_heap
       and t = "Arr [Obj [(''value'', Val (VNum 1))], Ref [''0'']]"]
    shared_run
  by simp

text \<open>
  The claim as stated fails for the array \<open>[f, f]\<close> of one function taken twice: with
  \<open>noRefs = true\<close>, \<open>normalize\<close> returns an item.
\<close>

theorem noRefs_accepts_repeated_function:
  "normalize 3 Map.empty (defaultOptions\<lparr>noRefs := True\<rparr>) (VObject 0) functions_heap
     = Some (Inr (Arr [Fun (Val (VStr ''f'')), Fun (Val (VStr ''f''))], functions_heap))"
  by (simp add: eval_simps functions_heap_def)

section \<open>Identity after the fixups\<close>

text \<open>
  C2. The claim is that after the fixups every slot that held a reference holds the
  instance at the reference's source path. The code does otherwise when the root is an
  instance of a registered class that refers to itself: the conversion of the root has
  the depth of the reference whose source is the root, is sorted before it, and returns
  from \<open>denormalize\<close> at once; the reference is never resolved and \<open>self\<close> stays
  \<open>null\<close>. One level down, as the element of an array, the same instance gets its
  \<open>self\<close>.
\<close>

theorem reference_to_converted_root_is_dropped:
  "clone 3 node_registry defaultOptions (VObject 0) root_cycle_heap =
     Some (Inr (VObject 3,
       root_cycle_heap @
       [HObject (Some ''Object'') [(''self'', VObject 0)],
        HObject (Some ''Object'') [(''self'', VNull)],
        HObject (Some ''Node'') [(''self'', VNull)]]))
 \<and> clone 4 node_registry defaultOptions (VObject 1) nested_cycle_heap =
     Some (Inr (VObject 4,
       nested_cycle_heap @
       [HObject (Some ''Object'') [(''self'', VObject 0)],
        HObject (Some ''Object'') [(''self'', VNull)],
        HArray [VObject 5],
        HObject (Some ''Node'') [(''self'', VObject 5)]]))"
  by code_simp

section \<open>Converters are needed for custom types only\<close>




lemma own_props_object:
  "cell h a = Some (HObject c props) \<Longrightarrow> own_props (VObject a) h = Inr props"
  by (simp add: own_props_def)


















end
